theory Spec2Isabelle
  imports Complex_Main
begin

section \<open>Tensors, arrays and Python errors\<close>

text \<open>
  The module \<^verbatim>\<open>tf_utils.py\<close> consists of five helper functions over TensorFlow tensors.
  A tensor is modelled by what the functions observe of it: its static shape
  (\<^verbatim>\<open>tensor.shape\<close>, a \<^verbatim>\<open>TensorShape\<close>: unknown rank, or one entry per axis that is a known
  size or \<^verbatim>\<open>None\<close>), the value that \<^verbatim>\<open>tf.shape(tensor)\<close> has at execution time, its elements in
  row-major order, and its dtype. Element arithmetic is exact arithmetic on \<open>real\<close>:
  rounding of the floating-point types is outside the model. Sizes are \<open>nat\<close>; Python
  integers (axis numbers) are \<open>int\<close>.

  The operations of TensorFlow and Python that the functions call (\<^verbatim>\<open>tf.shape\<close>,
  \<^verbatim>\<open>tf.reshape\<close>, subscripts, broadcasting arithmetic, \<^verbatim>\<open>tf.nn.moments\<close>,
  \<^verbatim>\<open>tf.nn.batch_normalization\<close>, \<^verbatim>\<open>tf.nn.softmax\<close>) are not code of the module: each is a
  definition of its own, after the documented behaviour of the operation. A failure of a
  TensorFlow operation is the error \<open>InvalidArgumentError\<close>, whether TensorFlow reports
  it when the graph is built or when it runs.
\<close>

datatype dtype = Float16 | BFloat16 | Float32 | Float64

text \<open>\<^verbatim>\<open>dtype.min\<close>: the most negative finite value of the type.\<close>

fun dtype_min :: "dtype \<Rightarrow> real" where
  "dtype_min Float16 = - 65504"
| "dtype_min BFloat16 = - (2 ^ 128 - 2 ^ 120)"
| "dtype_min Float32 = - (2 ^ 128 - 2 ^ 104)"
| "dtype_min Float64 = - (2 ^ 1024 - 2 ^ 971)"

datatype py_error =
  NotImplementedError
  | UnboundLocalError
  | TypeError
  | IndexError
  | InvalidArgumentError

type_synonym tensor_shape = "nat option list option"

record tensor =
  static_shape :: tensor_shape
  dyn_shape :: "nat list"
  elems :: "real list"
  dtype :: dtype

record ndarray =
  np_shape :: "nat list"
  np_elems :: "real list"
  np_dtype :: dtype

datatype array_like = TfTensor tensor | NdArray ndarray

text \<open>\<^verbatim>\<open>tensor.shape.rank\<close>: \<^verbatim>\<open>None\<close> when the rank is unknown.\<close>

definition rank :: "tensor \<Rightarrow> nat option" where
  "rank t = map_option length (static_shape t)"

text \<open>\<^verbatim>\<open>tf.shape(tensor)\<close>, evaluated.\<close>

definition tf_shape :: "tensor \<Rightarrow> nat list" where
  "tf_shape t = dyn_shape t"

text \<open>
  A tensor produced by a TensorFlow operation, from its shape, elements and dtype. The
  static shape of a result is taken to be fully known, as in eager execution; no function
  of the module reads the static shape of a result it did not receive as an argument.
\<close>

definition mk_tensor :: "nat list \<Rightarrow> real list \<Rightarrow> dtype \<Rightarrow> tensor" where
  "mk_tensor s xs d =
     \<lparr>static_shape = Some (map Some s), dyn_shape = s, elems = xs, dtype = d\<rparr>"

text \<open>\<^verbatim>\<open>tf.convert_to_tensor\<close> on a NumPy array.\<close>

definition convert_to_tensor :: "ndarray \<Rightarrow> tensor" where
  "convert_to_tensor a = mk_tensor (np_shape a) (np_elems a) (np_dtype a)"

text \<open>
  A static entry agrees with the run-time size of its axis when it is \<^verbatim>\<open>None\<close> or that size.
\<close>

fun dim_agrees :: "nat option \<Rightarrow> nat \<Rightarrow> bool" where
  "dim_agrees None n = True"
| "dim_agrees (Some m) n = (m = n)"

text \<open>
  Well-formed tensors: the static shape, where known, agrees with the run-time shape, and
  there is one element per position.
\<close>

definition wf_tensor :: "tensor \<Rightarrow> bool" where
  "wf_tensor t =
     (length (elems t) = prod_list (dyn_shape t) \<and>
      (case static_shape t of
         None \<Rightarrow> True
       | Some ds \<Rightarrow> list_all2 dim_agrees ds (dyn_shape t)))"

section \<open>Python lists and slices\<close>

text \<open>
  The position that a Python list of \<open>n\<close> entries gives to the subscript \<open>i\<close>: a
  negative subscript counts from the end, and there is no position out of range.
\<close>

definition py_position :: "nat \<Rightarrow> int \<Rightarrow> nat option" where
  "py_position n i =
     (if 0 \<le> i \<and> i < int n then Some (nat i)
      else if - int n \<le> i \<and> i < 0 then Some (nat (i + int n))
      else None)"

text \<open>\<^verbatim>\<open>xs[i]\<close>, which raises \<^verbatim>\<open>IndexError\<close> where there is no position.\<close>

definition py_index :: "'a list \<Rightarrow> int \<Rightarrow> py_error + 'a" where
  "py_index xs i =
     (case py_position (length xs) i of None \<Rightarrow> Inl IndexError | Some j \<Rightarrow> Inr (xs ! j))"

text \<open>\<^verbatim>\<open>xs[i] = v\<close>, with the same rule.\<close>

definition py_set_index :: "'a list \<Rightarrow> int \<Rightarrow> 'a \<Rightarrow> py_error + 'a list" where
  "py_set_index xs i v =
     (case py_position (length xs) i of None \<Rightarrow> Inl IndexError | Some j \<Rightarrow> Inr (xs[j := v]))"

text \<open>
  A bound of a slice with step 1 on a sequence of length \<open>n\<close>: absent bounds take the
  default, negative bounds count from the end, and the result is clamped to \<open>0..n\<close>.
\<close>

definition slice_bound :: "nat \<Rightarrow> nat \<Rightarrow> int option \<Rightarrow> nat" where
  "slice_bound n dflt b =
     (case b of
        None \<Rightarrow> dflt
      | Some i \<Rightarrow> if i < 0 then nat (max (i + int n) 0) else min (nat i) n)"

text \<open>
  \<^verbatim>\<open>xs[lo:hi]\<close>; the same rules hold for a slice of the 1-D tensor \<^verbatim>\<open>tf.shape(input)\<close>.
\<close>

definition py_slice :: "'a list \<Rightarrow> int option \<Rightarrow> int option \<Rightarrow> 'a list" where
  "py_slice xs lo hi =
     (let n = length xs; l = slice_bound n 0 lo; h = slice_bound n n hi
      in take (h - l) (drop l xs))"

section \<open>shape_list\<close>

text \<open>
  An entry of the list that \<^verbatim>\<open>shape_list\<close> returns: a Python integer, or the scalar tensor
  \<^verbatim>\<open>dynamic[i]\<close> that stands for the size of axis \<open>i\<close> at execution time.
\<close>

datatype dim = Known nat | Dynamic nat

text \<open>
  The value returned: a Python list, or the 1-D tensor \<^verbatim>\<open>tf.shape(tensor)\<close> itself (given by
  its value).
\<close>

datatype shape_list_result = PyList "dim list" | ShapeTensor "nat list"

text \<open>
  The comprehension \<^verbatim>\<open>[dynamic[i] if s is None else s for i, s in enumerate(static)]\<close>,
  with \<open>i\<close> the position reached.
\<close>

fun mixed_dims :: "nat \<Rightarrow> nat option list \<Rightarrow> dim list" where
  "mixed_dims i [] = []"
| "mixed_dims i (s # ss) =
     (case s of None \<Rightarrow> Dynamic i | Some n \<Rightarrow> Known n) # mixed_dims (Suc i) ss"

definition shape_list :: "array_like \<Rightarrow> shape_list_result" where
  "shape_list x =
     (case x of
        NdArray a \<Rightarrow> PyList (map Known (np_shape a))
      | TfTensor t \<Rightarrow>
          (let dynamic = tf_shape t
           in case static_shape t of
                None \<Rightarrow> ShapeTensor dynamic
              | Some static \<Rightarrow> PyList (mixed_dims 0 static)))"

text \<open>The size an entry stands for when the graph runs on tensor \<open>t\<close>.\<close>

fun dim_value :: "tensor \<Rightarrow> dim \<Rightarrow> nat" where
  "dim_value t (Known n) = n"
| "dim_value t (Dynamic i) = tf_shape t ! i"

section \<open>flatten\<close>

text \<open>
  \<^verbatim>\<open>tf.reshape(tensor, shape)\<close> for a shape without \<open>-1\<close> entries: the elements stay in
  row-major order; the number of elements must not change.
\<close>

definition tf_reshape :: "tensor \<Rightarrow> nat list \<Rightarrow> py_error + tensor" where
  "tf_reshape t s =
     (if prod_list s = length (elems t) then Inr (mk_tensor s (elems t) (dtype t))
      else Inl InvalidArgumentError)"

text \<open>
  The entries of the tensor \<^verbatim>\<open>tf.shape(input)\<close> are signed 32-bit integers, and arithmetic
  on them wraps around: a result is reduced to the range from \<open>-2 ^ 31\<close> to \<open>2 ^ 31 - 1\<close>.
\<close>

definition wrap_int32 :: "int \<Rightarrow> int" where
  "wrap_int32 k = (k + 2 ^ 31) mod 2 ^ 32 - 2 ^ 31"

definition shape_int32 :: "tensor \<Rightarrow> int list" where
  "shape_int32 t = map (\<lambda>n. wrap_int32 (int n)) (tf_shape t)"

text \<open>
  \<^verbatim>\<open>tf.math.reduce_prod\<close> on 32-bit entries: wrapping after every multiplication gives the
  product wrapped once.
\<close>

definition reduce_prod_int32 :: "int list \<Rightarrow> int" where
  "reduce_prod_int32 xs = wrap_int32 (prod_list xs)"

text \<open>
  \<^verbatim>\<open>tf.reshape(tensor, shape)\<close> for a shape given by integers. One entry may be \<open>-1\<close>: its
  size is the number of elements divided by the product of the other entries, which must
  divide it and must not be 0. Any other negative entry and a second \<open>-1\<close> are rejected.
  Without \<open>-1\<close> the product of the entries must be the number of elements.
\<close>

definition tf_reshape_int :: "tensor \<Rightarrow> int list \<Rightarrow> py_error + tensor" where
  "tf_reshape_int t s =
     (let known = filter (\<lambda>d. d \<noteq> - 1) s;
          unknown = length s - length known;
          n = int (length (elems t))
      in if \<not> list_all (\<lambda>d. 0 \<le> d) known \<or> 1 < unknown then Inl InvalidArgumentError
         else if unknown = 0 then
           (if prod_list known = n then Inr (mk_tensor (map nat s) (elems t) (dtype t))
            else Inl InvalidArgumentError)
         else if prod_list known = 0 \<or> n mod prod_list known \<noteq> 0
           then Inl InvalidArgumentError
         else Inr (mk_tensor
                     (map (\<lambda>d. if d = - 1 then nat (n div prod_list known) else nat d) s)
                     (elems t) (dtype t)))"

text \<open>
  \<^verbatim>\<open>if d < 0: d += input.shape.rank\<close>; adding \<^verbatim>\<open>None\<close> to an integer raises \<^verbatim>\<open>TypeError\<close>.
\<close>

definition add_rank :: "int \<Rightarrow> nat option \<Rightarrow> py_error + int" where
  "add_rank d r =
     (if d < 0 then (case r of None \<Rightarrow> Inl TypeError | Some n \<Rightarrow> Inr (d + int n))
      else Inr d)"

definition flatten :: "tensor \<Rightarrow> int \<Rightarrow> int \<Rightarrow> py_error + tensor" where
  "flatten input start_dim end_dim =
     (case add_rank end_dim (rank input) of
        Inl e \<Rightarrow> Inl e
      | Inr end_dim' \<Rightarrow>
     (case add_rank start_dim (rank input) of
        Inl e \<Rightarrow> Inl e
      | Inr start_dim' \<Rightarrow>
     (if start_dim' = end_dim' then Inr input
      else
        (let in_shape = shape_int32 input;
             flattened_dim =
               reduce_prod_int32 (py_slice in_shape (Some start_dim') (Some (end_dim' + 1)));
             out_shape = py_slice in_shape None (Some start_dim') @ [flattened_dim]
                           @ py_slice in_shape (Some (end_dim' + 1)) None
         in tf_reshape_int input out_shape))))"

section \<open>invert_attention_mask\<close>

text \<open>
  The element of a tensor at a multi-index: elements are stored in row-major order.
\<close>

fun flat_index :: "nat list \<Rightarrow> nat list \<Rightarrow> nat" where
  "flat_index (d # ds) (i # js) = i * prod_list ds + flat_index ds js"
| "flat_index ds js = 0"

definition elem_at :: "tensor \<Rightarrow> nat list \<Rightarrow> real" where
  "elem_at t idx = elems t ! flat_index (dyn_shape t) idx"

text \<open>An elementwise operation with a scalar: shape and dtype stay.\<close>

definition map_elems :: "(real \<Rightarrow> real) \<Rightarrow> tensor \<Rightarrow> tensor" where
  "map_elems f t = mk_tensor (dyn_shape t) (map f (elems t)) (dtype t)"

text \<open>
  The subscripts \<^verbatim>\<open>mask[:, None, :, :]\<close> and \<^verbatim>\<open>mask[:, None, None, :]\<close>: every \<^verbatim>\<open>:\<close> keeps its
  axis whole and every \<^verbatim>\<open>None\<close> (\<^verbatim>\<open>tf.newaxis\<close>) inserts an axis of size 1, here \<open>k\<close> of them
  after the first axis. The elements keep their order.
\<close>

definition newaxis_after_first :: "nat \<Rightarrow> tensor \<Rightarrow> tensor" where
  "newaxis_after_first k t =
     mk_tensor (take 1 (dyn_shape t) @ replicate k 1 @ drop 1 (dyn_shape t)) (elems t) (dtype t)"

text \<open>Lines 133-134: a stray NumPy input is converted, a tensor is taken as it is.\<close>

definition as_tensor :: "array_like \<Rightarrow> tensor" where
  "as_tensor m = (case m of TfTensor t \<Rightarrow> t | NdArray a \<Rightarrow> convert_to_tensor a)"

text \<open>
  The local variable \<^verbatim>\<open>encoder_extended_attention_mask\<close> is bound by neither \<^verbatim>\<open>if\<close> when the
  rank is not 3 and not 2: it is an \<open>option\<close>, and reading it unbound raises
  \<^verbatim>\<open>UnboundLocalError\<close>. The scalar \<^verbatim>\<open>tf.cast(1, dtype)\<close> is the number 1.
\<close>

definition invert_attention_mask :: "array_like \<Rightarrow> py_error + tensor" where
  "invert_attention_mask m =
     (let encoder_attention_mask = as_tensor m;
          ext3 = (if rank encoder_attention_mask = Some 3
                  then Some (newaxis_after_first 1 encoder_attention_mask) else None);
          ext2 = (if rank encoder_attention_mask = Some 2
                  then Some (newaxis_after_first 2 encoder_attention_mask) else ext3)
      in case ext2 of
           None \<Rightarrow> Inl UnboundLocalError
         | Some encoder_extended_attention_mask \<Rightarrow>
             Inr (map_elems (\<lambda>v. v * dtype_min (dtype encoder_extended_attention_mask))
                    (map_elems (\<lambda>v. 1 - v) encoder_extended_attention_mask)))"

section \<open>Reductions along an axis and broadcasting\<close>

text \<open>
  For a shape \<open>s\<close> and an axis \<open>a\<close>, a position of the row-major order is
  \<open>(o * n + k) * inner + i\<close>, with \<open>n\<close> the size of the axis, \<open>inner\<close> the number of
  positions of the axes after it, \<open>k\<close> the index along the axis, and \<open>o\<close> and \<open>i\<close> the
  positions among the axes before and after it. The lane through \<open>o\<close> and \<open>i\<close> holds the
  elements met along the axis.
\<close>

definition outer_size :: "nat list \<Rightarrow> nat \<Rightarrow> nat" where
  "outer_size s a = prod_list (take a s)"

definition inner_size :: "nat list \<Rightarrow> nat \<Rightarrow> nat" where
  "inner_size s a = prod_list (drop (Suc a) s)"

definition lane_at :: "nat list \<Rightarrow> nat \<Rightarrow> real list \<Rightarrow> nat \<Rightarrow> nat \<Rightarrow> real list" where
  "lane_at s a xs o' i =
     map (\<lambda>k. xs ! ((o' * (s ! a) + k) * inner_size s a + i)) [0..<s ! a]"

text \<open>The lane through position \<open>p\<close> of the row-major order.\<close>

definition lane_through :: "nat list \<Rightarrow> nat \<Rightarrow> real list \<Rightarrow> nat \<Rightarrow> real list" where
  "lane_through s a xs p = lane_at s a xs (p div (s ! a * inner_size s a)) (p mod inner_size s a)"

text \<open>
  An axis number of TensorFlow for a tensor of rank \<open>r\<close>: \<open>-r \<le> ax < r\<close>, negative
  numbers counting from the end; anything else is rejected.
\<close>

definition resolve_axis :: "nat \<Rightarrow> int \<Rightarrow> py_error + nat" where
  "resolve_axis r ax =
     (if - int r \<le> ax \<and> ax < int r then Inr (nat (if ax < 0 then ax + int r else ax))
      else Inl InvalidArgumentError)"

text \<open>
  \<^verbatim>\<open>tf.reduce_mean(t, axis=[a], keepdims=True)\<close>. Over an axis of size 0 TensorFlow's mean
  is not a number; the model's value there (a division by 0) is used by no property below.
\<close>

definition reduce_mean :: "tensor \<Rightarrow> nat \<Rightarrow> tensor" where
  "reduce_mean t a =
     (let s = dyn_shape t; inner = inner_size s a
      in mk_tensor (s[a := 1])
           (map (\<lambda>q. sum_list (lane_at s a (elems t) (q div inner) (q mod inner)) / real (s ! a))
              [0..<outer_size s a * inner])
           (dtype t))"

text \<open>
  Broadcasting of two shapes, aligned at their last axes (the lists are reversed): two
  sizes are compatible when they are equal or one of them is 1.
\<close>

fun bcast_rev :: "nat list \<Rightarrow> nat list \<Rightarrow> nat list option" where
  "bcast_rev [] ys = Some ys"
| "bcast_rev (x # xs) [] = Some (x # xs)"
| "bcast_rev (x # xs) (y # ys) =
     (if x = y \<or> y = 1 then map_option ((#) x) (bcast_rev xs ys)
      else if x = 1 then map_option ((#) y) (bcast_rev xs ys)
      else None)"

definition broadcast_shape :: "nat list \<Rightarrow> nat list \<Rightarrow> nat list option" where
  "broadcast_shape s1 s2 = map_option rev (bcast_rev (rev s1) (rev s2))"

text \<open>The multi-index of a position of the row-major order.\<close>

fun unravel :: "nat list \<Rightarrow> nat \<Rightarrow> nat list" where
  "unravel [] p = []"
| "unravel (d # ds) p = (p div prod_list ds) # unravel ds (p mod prod_list ds)"

text \<open>
  The position, in an operand of shape \<open>os\<close>, of the element that broadcasting puts at
  position \<open>p\<close> of the result of shape \<open>rs\<close>: the operand's axes are the last axes of the
  result, and along an axis of size 1 the operand's only element is repeated.
\<close>

definition bcast_index :: "nat list \<Rightarrow> nat list \<Rightarrow> nat \<Rightarrow> nat" where
  "bcast_index rs os p =
     flat_index os
       (map2 (\<lambda>d i. if d = 1 then 0 else i) os (drop (length rs - length os) (unravel rs p)))"

definition broadcast_elems :: "nat list \<Rightarrow> tensor \<Rightarrow> real list" where
  "broadcast_elems rs t =
     map (\<lambda>p. elems t ! bcast_index rs (dyn_shape t) p) [0..<prod_list rs]"

text \<open>
  An elementwise binary operation of TensorFlow (\<^verbatim>\<open>*\<close>, \<^verbatim>\<open>+\<close>, \<^verbatim>\<open>-\<close>,
  \<^verbatim>\<open>squared_difference\<close>): the dtypes must be equal and the shapes must broadcast.
\<close>

definition tf_binop :: "(real \<Rightarrow> real \<Rightarrow> real) \<Rightarrow> tensor \<Rightarrow> tensor \<Rightarrow> py_error + tensor" where
  "tf_binop f a b =
     (if dtype a \<noteq> dtype b then Inl InvalidArgumentError
      else case broadcast_shape (dyn_shape a) (dyn_shape b) of
             None \<Rightarrow> Inl InvalidArgumentError
           | Some rs \<Rightarrow>
               Inr (mk_tensor rs (map2 f (broadcast_elems rs a) (broadcast_elems rs b)) (dtype a)))"

text \<open>\<^verbatim>\<open>tf.cast\<close>: the dtype changes; in exact arithmetic the elements stay.\<close>

definition tf_cast :: "tensor \<Rightarrow> dtype \<Rightarrow> tensor" where
  "tf_cast t d = t\<lparr>dtype := d\<rparr>"

section \<open>stable_softmax\<close>

text \<open>
  \<^verbatim>\<open>tf.nn.softmax(logits, axis)\<close>: an absent axis is \<open>-1\<close>, the last one; each element is
  its exponential divided by the sum of the exponentials of its lane. A tensor of rank 0
  has no axis and is rejected. The \<^verbatim>\<open>name\<close> argument labels the operation and has no
  effect on the value.
\<close>

definition softmax_along :: "tensor \<Rightarrow> nat \<Rightarrow> tensor" where
  "softmax_along t a =
     (let s = dyn_shape t
      in mk_tensor s
           (map (\<lambda>p. exp (elems t ! p) / sum_list (map exp (lane_through s a (elems t) p)))
              [0..<prod_list s])
           (dtype t))"

definition tf_softmax :: "tensor \<Rightarrow> int option \<Rightarrow> py_error + tensor" where
  "tf_softmax logits axis =
     (let ax = (case axis of None \<Rightarrow> - 1 | Some a \<Rightarrow> a)
      in case resolve_axis (length (dyn_shape logits)) ax of
           Inl e \<Rightarrow> Inl e
         | Inr a \<Rightarrow> Inr (softmax_along logits a))"

definition stable_softmax :: "tensor \<Rightarrow> int option \<Rightarrow> py_error + tensor" where
  "stable_softmax logits axis = tf_softmax (map_elems (\<lambda>v. v + 1 / 10 ^ 9) logits) axis"

section \<open>functional_layernorm\<close>

text \<open>
  \<^verbatim>\<open>tf.nn.moments(x, axes=[axis], keepdims=True)\<close>: the mean along the axis, and the mean of
  the squared differences from it.
\<close>

definition tf_moments :: "tensor \<Rightarrow> int \<Rightarrow> py_error + tensor \<times> tensor" where
  "tf_moments x ax =
     (case resolve_axis (length (dyn_shape x)) ax of
        Inl e \<Rightarrow> Inl e
      | Inr a \<Rightarrow>
          (let mean = reduce_mean x a
           in case tf_binop (\<lambda>u v. (u - v)\<^sup>2) x mean of
                Inl e \<Rightarrow> Inl e
              | Inr sq \<Rightarrow> Inr (mean, reduce_mean sq a)))"

text \<open>
  \<^verbatim>\<open>tf.nn.batch_normalization(x, mean, variance, offset, scale, variance_epsilon)\<close>, which
  computes \<^verbatim>\<open>inv = rsqrt(variance + variance_epsilon) * scale\<close> and returns
  \<^verbatim>\<open>x * cast(inv, x.dtype) + cast(offset - mean * inv, x.dtype)\<close>.
\<close>

definition batch_normalization ::
  "tensor \<Rightarrow> tensor \<Rightarrow> tensor \<Rightarrow> tensor \<Rightarrow> tensor \<Rightarrow> real \<Rightarrow> py_error + tensor" where
  "batch_normalization x mean variance offset scale variance_epsilon =
     (case tf_binop (*) (map_elems (\<lambda>v. 1 / sqrt (v + variance_epsilon)) variance) scale of
        Inl e \<Rightarrow> Inl e
      | Inr inv' \<Rightarrow>
     (case tf_binop (*) x (tf_cast inv' (dtype x)) of
        Inl e \<Rightarrow> Inl e
      | Inr scaled \<Rightarrow>
     (case tf_binop (*) mean inv' of
        Inl e \<Rightarrow> Inl e
      | Inr mean_inv \<Rightarrow>
     (case tf_binop (-) offset mean_inv of
        Inl e \<Rightarrow> Inl e
      | Inr shift \<Rightarrow> tf_binop (+) scaled (tf_cast shift (dtype x))))))"

text \<open>The \<^verbatim>\<open>axis\<close> argument: a Python integer, or a tuple or list of integers.\<close>

datatype axis_arg = AxisInt int | AxisSeq "int list"

fun isinstance_int :: "axis_arg \<Rightarrow> bool" where
  "isinstance_int (AxisInt n) = True"
| "isinstance_int (AxisSeq ns) = False"

text \<open>
  \<^verbatim>\<open>shape_list(inputs)[axis]\<close>: an entry of the Python list, or, when \<^verbatim>\<open>shape_list\<close> returned
  the shape tensor, an element of that tensor.
\<close>

definition shape_list_at :: "tensor \<Rightarrow> int \<Rightarrow> py_error + dim" where
  "shape_list_at inputs axis =
     (case shape_list (TfTensor inputs) of
        PyList l \<Rightarrow> py_index l axis
      | ShapeTensor d \<Rightarrow>
          (case py_index d axis of
             Inl e \<Rightarrow> Inl InvalidArgumentError
           | Inr n \<Rightarrow> Inr (Known n)))"

text \<open>
  Lines 84-90: the weight and the bias that reach the normalization. For an axis other
  than \<open>-1\<close> both are reshaped to \<^verbatim>\<open>shape\<close>, which is \<^verbatim>\<open>[1] * inputs.shape.rank\<close> with the entry at
  \<^verbatim>\<open>axis\<close> replaced by \<^verbatim>\<open>shape_list(inputs)[axis]\<close>; multiplying a list by \<^verbatim>\<open>None\<close> raises
  \<^verbatim>\<open>TypeError\<close>.
\<close>

definition layernorm_params ::
  "tensor \<Rightarrow> tensor \<Rightarrow> tensor \<Rightarrow> int \<Rightarrow> py_error + tensor \<times> tensor" where
  "layernorm_params inputs weight bias axis =
     (if axis \<noteq> - 1 then
        (case rank inputs of
           None \<Rightarrow> Inl TypeError
         | Some r \<Rightarrow>
        (case shape_list_at inputs axis of
           Inl e \<Rightarrow> Inl e
         | Inr d \<Rightarrow>
        (case py_set_index (replicate r (Known 1)) axis d of
           Inl e \<Rightarrow> Inl e
         | Inr shape \<Rightarrow>
        (case tf_reshape weight (map (dim_value inputs) shape) of
           Inl e \<Rightarrow> Inl e
         | Inr weight' \<Rightarrow>
        (case tf_reshape bias (map (dim_value inputs) shape) of
           Inl e \<Rightarrow> Inl e
         | Inr bias' \<Rightarrow> Inr (weight', bias'))))))
      else Inr (weight, bias))"

definition functional_layernorm ::
  "tensor \<Rightarrow> tensor \<Rightarrow> tensor \<Rightarrow> real \<Rightarrow> axis_arg \<Rightarrow> py_error + tensor" where
  "functional_layernorm inputs weight bias epsilon axis =
     (if rank weight \<noteq> Some 1 \<or> rank bias \<noteq> Some 1 \<or> \<not> isinstance_int axis
      then Inl NotImplementedError
      else
        (case axis of
           AxisSeq ns \<Rightarrow> Inl NotImplementedError
         | AxisInt ax \<Rightarrow>
        (case tf_moments inputs ax of
           Inl e \<Rightarrow> Inl e
         | Inr (mean, variance) \<Rightarrow>
        (case layernorm_params inputs weight bias ax of
           Inl e \<Rightarrow> Inl e
         | Inr (weight', bias') \<Rightarrow>
             batch_normalization inputs mean variance bias' weight' epsilon))))"

section \<open>Sample inputs\<close>

text \<open>A tensor of shape \<open>(2, 3, 4, 5)\<close> holding the numbers \<open>0, 1, ..., 119\<close>.\<close>

definition x2345 :: tensor where
  "x2345 = \<lparr>static_shape = Some [Some 2, Some 3, Some 4, Some 5], dyn_shape = [2, 3, 4, 5],
            elems = map real [0..<120], dtype = Float32\<rparr>"

text \<open>An empty tensor of shape \<open>(65536, 65536, 0)\<close>.\<close>

definition x_wide :: tensor where
  "x_wide = \<lparr>static_shape = Some [Some 65536, Some 65536, Some 0],
            dyn_shape = [65536, 65536, 0], elems = [], dtype = Float32\<rparr>"

text \<open>
  A rank-2 mask of shape \<open>(1, 5)\<close> with a zero at position 2, a rank-3 mask given as a
  NumPy array, and a rank-1 mask.
\<close>

definition mask15 :: array_like where
  "mask15 = TfTensor \<lparr>static_shape = Some [Some 1, Some 5], dyn_shape = [1, 5],
                       elems = [1, 1, 0, 1, 1], dtype = Float32\<rparr>"

definition mask122 :: array_like where
  "mask122 = NdArray \<lparr>np_shape = [1, 2, 2], np_elems = [1, 0, 1, 1], np_dtype = Float16\<rparr>"

definition mask5 :: array_like where
  "mask5 = TfTensor \<lparr>static_shape = Some [Some 5], dyn_shape = [5],
                      elems = [1, 1, 0, 1, 1], dtype = Float32\<rparr>"

text \<open>
  Inputs of \<^verbatim>\<open>functional_layernorm\<close>: a \<open>(2, 2)\<close> input whose rows have mean 0 and
  variance 1, a weight of ones and a bias of zeros of size 2, and a weight of rank 2.
\<close>

definition ln_inputs :: tensor where
  "ln_inputs = \<lparr>static_shape = Some [Some 2, Some 2], dyn_shape = [2, 2],
               elems = [- 1, 1, 1, - 1], dtype = Float32\<rparr>"

definition ln_ones :: tensor where
  "ln_ones = \<lparr>static_shape = Some [Some 2], dyn_shape = [2], elems = [1, 1], dtype = Float32\<rparr>"

definition ln_zeros :: tensor where
  "ln_zeros = \<lparr>static_shape = Some [Some 2], dyn_shape = [2], elems = [0, 0], dtype = Float32\<rparr>"

definition ln_weight2d :: tensor where
  "ln_weight2d = \<lparr>static_shape = Some [Some 1, Some 2], dyn_shape = [1, 2],
                  elems = [1, 1], dtype = Float32\<rparr>"

text \<open>Logits of shape \<open>(2, 2)\<close>.\<close>

definition logits22 :: tensor where
  "logits22 = \<lparr>static_shape = Some [Some 2, Some 2], dyn_shape = [2, 2],
               elems = [0, 0, 1, 3], dtype = Float32\<rparr>"

section \<open>Properties of shape_list\<close>

lemma length_mixed_dims: "length (mixed_dims k ds) = length ds"
  by (induction ds arbitrary: k) (auto split: option.splits)

lemma nth_mixed_dims:
  "i < length ds \<Longrightarrow>
   mixed_dims k ds ! i = (case ds ! i of None \<Rightarrow> Dynamic (k + i) | Some n \<Rightarrow> Known n)"
proof (induction ds arbitrary: k i)
  case Nil
  then show ?case by simp
next
  case (Cons d ds)
  show ?case
  proof (cases i)
    case 0
    then show ?thesis by (simp split: option.splits)
  next
    case (Suc j)
    with Cons.prems have "j < length ds" by simp
    from Cons.IH [OF this, of "Suc k"] Suc show ?thesis by (simp split: option.splits)
  qed
qed

lemma dim_value_mixed_dims:
  "list_all2 dim_agrees ds (drop k (dyn_shape t)) \<Longrightarrow>
   map (dim_value t) (mixed_dims k ds) = drop k (dyn_shape t)"
proof (induction ds arbitrary: k)
  case Nil
  then show ?case by simp
next
  case (Cons d ds)
  from Cons.prems obtain n ns where dr: "drop k (dyn_shape t) = n # ns"
    and dn: "dim_agrees d n" and rest: "list_all2 dim_agrees ds ns"
    by (auto simp: list_all2_Cons1)
  from dr have klt: "k < length (dyn_shape t)"
    by (metis drop_eq_Nil leI list.distinct(1))
  from dr klt have n: "n = dyn_shape t ! k" and ns: "ns = drop (Suc k) (dyn_shape t)"
    by (simp_all add: Cons_nth_drop_Suc [symmetric])
  from rest ns Cons.IH [of "Suc k"]
  have "map (dim_value t) (mixed_dims (Suc k) ds) = ns" by simp
  with dn n dr show ?case
    by (cases d) (simp_all add: tf_shape_def)
qed


text \<open>
  On a well-formed tensor of known rank the entries of the list stand for the run-time
  sizes of the axes: the known entries are those sizes and the placeholders evaluate to them.
\<close>

lemma shape_list_values:
  assumes "wf_tensor t" and "static_shape t = Some ds"
  shows "shape_list (TfTensor t) = PyList (mixed_dims 0 ds)"
    and "map (dim_value t) (mixed_dims 0 ds) = dyn_shape t"
  using assms dim_value_mixed_dims [of ds 0 t]
  by (simp_all add: shape_list_def wf_tensor_def)

text \<open>
  Claim C7. \<^verbatim>\<open>shape_list\<close> on a NumPy array returns the array's dimension sizes as a list of
  integers; on a tensor of unknown rank it returns the dynamic shape tensor
  \<^verbatim>\<open>tf.shape(tensor)\<close> unchanged; otherwise it returns a list with one entry per axis, the
  statically known size where there is one and the placeholder \<^verbatim>\<open>dynamic[i]\<close> for axis \<open>i\<close>
  where there is none.
\<close>

theorem shape_list_contract:
  "shape_list (NdArray a) = PyList (map Known (np_shape a)) \<and>
   (static_shape t = None \<longrightarrow> shape_list (TfTensor t) = ShapeTensor (tf_shape t)) \<and>
   (\<forall>ds. static_shape t = Some ds \<longrightarrow>
      (\<exists>r. shape_list (TfTensor t) = PyList r \<and> length r = length ds \<and>
         (\<forall>i<length ds. r ! i = (case ds ! i of None \<Rightarrow> Dynamic i | Some n \<Rightarrow> Known n))))"
  by (simp add: shape_list_def length_mixed_dims nth_mixed_dims split: option.splits)

theorem shape_list_contract_witness:
  "shape_list (NdArray \<lparr>np_shape = [2, 3], np_elems = [1, 2, 3, 4, 5, 6], np_dtype = Float32\<rparr>)
     = PyList [Known 2, Known 3] \<and>
   shape_list (TfTensor \<lparr>static_shape = None, dyn_shape = [2, 3],
                          elems = [1, 2, 3, 4, 5, 6], dtype = Float32\<rparr>)
     = ShapeTensor [2, 3] \<and>
   (\<exists>r. shape_list (TfTensor \<lparr>static_shape = Some [None, Some 3], dyn_shape = [2, 3],
                          elems = [1, 2, 3, 4, 5, 6], dtype = Float32\<rparr>) = PyList r \<and>
        r ! 0 = Dynamic 0 \<and> r ! 1 = Known 3)"
  using shape_list_contract
    [of "\<lparr>np_shape = [2, 3], np_elems = [1, 2, 3, 4, 5, 6], np_dtype = Float32\<rparr>"
        "\<lparr>static_shape = None, dyn_shape = [2, 3], elems = [1, 2, 3, 4, 5, 6], dtype = Float32\<rparr>"]
    shape_list_contract
    [of "\<lparr>np_shape = [2, 3], np_elems = [1, 2, 3, 4, 5, 6], np_dtype = Float32\<rparr>"
        "\<lparr>static_shape = Some [None, Some 3], dyn_shape = [2, 3], elems = [1, 2, 3, 4, 5, 6], dtype = Float32\<rparr>"]
  by (auto simp add: tf_shape_def)

section \<open>Properties of flatten\<close>

lemma py_slice_prefix:
  "0 \<le> s \<Longrightarrow> py_slice xs None (Some s) = take (nat s) xs"
  by (simp add: py_slice_def slice_bound_def Let_def min_def)

lemma py_slice_suffix:
  "0 \<le> s \<Longrightarrow> py_slice xs (Some s) None = drop (nat s) xs"
  by (simp add: py_slice_def slice_bound_def Let_def min_def)

lemma py_slice_range:
  "0 \<le> s \<Longrightarrow> s \<le> e \<Longrightarrow> py_slice xs (Some s) (Some e) = take (nat e - nat s) (drop (nat s) xs)"
  by (auto simp add: py_slice_def slice_bound_def Let_def min_def)

lemma prod_list_split_range:
  "prod_list (take a xs) * (prod_list (take b (drop a xs)) * prod_list (drop (a + b) xs))
     = prod_list (xs :: nat list)"
proof -
  have "xs = take a xs @ take b (drop a xs) @ drop (a + b) xs"
    by (metis append_take_drop_id drop_drop add.commute)
  then have "prod_list xs = prod_list (take a xs @ take b (drop a xs) @ drop (a + b) xs)"
    by simp
  then show ?thesis by simp
qed

lemma py_slice_map: "py_slice (map f xs) lo hi = map f (py_slice xs lo hi)"
  by (simp add: py_slice_def Let_def take_map drop_map)

lemma wrap_int32_nat: "n < 2 ^ 31 \<Longrightarrow> wrap_int32 (int n) = int n"
proof -
  assume "n < 2 ^ 31"
  then have "int n < 2 ^ 31" by (simp add: of_nat_less_iff [of n "2 ^ 31", simplified])
  then have "(int n + 2 ^ 31) mod 2 ^ 32 = int n + 2 ^ 31" by simp
  then show ?thesis by (simp add: wrap_int32_def)
qed

lemma map_wrap_int32_nat:
  "list_all (\<lambda>d. d < 2 ^ 31) xs \<Longrightarrow> map (\<lambda>n. wrap_int32 (int n)) xs = map int xs"
  by (induction xs) (simp_all add: wrap_int32_nat)

lemma prod_list_map_int: "prod_list (map int xs) = int (prod_list xs)"
  by (induction xs) simp_all

lemma tf_reshape_int_nat: "tf_reshape_int t (map int s) = tf_reshape t s"
proof -
  have k: "filter (\<lambda>d. d \<noteq> - 1) (map int s) = map int s"
    by (induction s) simp_all
  have a: "list_all (\<lambda>d. 0 \<le> d) (map int s)" by (induction s) simp_all
  have p: "prod_list (map int s) = int (prod_list s)" by (induction s) simp_all
  have m: "map nat (map int s) = s" by (induction s) simp_all
  show ?thesis
    unfolding tf_reshape_int_def tf_reshape_def Let_def k
    using a p m by simp
qed


text \<open>
  Claim C8. When the resolved \<^verbatim>\<open>start_dim\<close> and \<^verbatim>\<open>end_dim\<close> (the rank added to a negative
  index) are equal, \<^verbatim>\<open>flatten\<close> returns its input unchanged.
\<close>

theorem flatten_same_dim_identity:
  "add_rank end_dim (rank x) = Inr d \<Longrightarrow> add_rank start_dim (rank x) = Inr d \<Longrightarrow>
   flatten x start_dim end_dim = Inr x"
  by (simp add: flatten_def)

theorem flatten_same_dim_identity_witness:
  "add_rank (- 4) (rank x2345) = Inr 0 \<and> add_rank 0 (rank x2345) = Inr 0 \<and>
   flatten x2345 0 (- 4) = Inr x2345 \<and> flatten x2345 0 0 = Inr x2345 \<and>
   dyn_shape x2345 = [2, 3, 4, 5]"
proof -
  have a: "add_rank (- 4) (rank x2345) = Inr 0" and b: "add_rank 0 (rank x2345) = Inr 0"
    by (simp_all add: add_rank_def rank_def x2345_def)
  from a b flatten_same_dim_identity [OF a b] flatten_same_dim_identity [OF b b]
  show ?thesis by (simp add: x2345_def)
qed

text \<open>
  Claim C3 (amended). For a tensor whose sizes, and the product of the sizes to collapse,
  are below \<open>2 ^ 31\<close> (the entries of \<^verbatim>\<open>tf.shape\<close> are signed 32-bit), and for \<^verbatim>\<open>start_dim\<close> and
  \<^verbatim>\<open>end_dim\<close> resolved by adding the rank to a negative index: when the resolved
  \<^verbatim>\<open>start_dim\<close> is not negative and is less than the resolved \<^verbatim>\<open>end_dim\<close>, \<^verbatim>\<open>flatten\<close>
  returns a reshape of its input (same elements in the same order, same dtype) whose shape
  is: the axes before \<^verbatim>\<open>start_dim\<close>, one axis whose size is the product of the sizes of the
  axes \<^verbatim>\<open>start_dim\<close> through \<^verbatim>\<open>end_dim\<close>, the axes after \<^verbatim>\<open>end_dim\<close>. On a tensor of shape
  \<open>(2, 3, 4, 5)\<close>, \<^verbatim>\<open>flatten(x, 1, 2)\<close> has shape \<open>(2, 12, 5)\<close>.
\<close>

theorem flatten_collapses_range:
  assumes wf: "wf_tensor x"
    and ae: "add_rank end_dim (rank x) = Inr e"
    and as: "add_rank start_dim (rank x) = Inr s"
    and range: "0 \<le> s" "s < e"
    and fit: "list_all (\<lambda>d. d < 2 ^ 31) (dyn_shape x)"
      "prod_list (take (nat e + 1 - nat s) (drop (nat s) (dyn_shape x))) < 2 ^ 31"
  shows "flatten x start_dim end_dim =
           Inr (mk_tensor
                  (take (nat s) (dyn_shape x)
                     @ [prod_list (take (nat e + 1 - nat s) (drop (nat s) (dyn_shape x)))]
                     @ drop (nat e + 1) (dyn_shape x))
                  (elems x) (dtype x))"
proof -
  let ?sh = "dyn_shape x"
  let ?P = "prod_list (take (nat e + 1 - nat s) (drop (nat s) ?sh))"
  let ?out = "take (nat s) ?sh @ [?P] @ drop (nat e + 1) ?sh"
  have ne: "nat (e + 1) = nat e + 1" using range by simp
  have si: "shape_int32 x = map int ?sh"
    using fit(1) by (simp add: shape_int32_def tf_shape_def map_wrap_int32_nat)
  have p1: "py_slice (shape_int32 x) None (Some s) = map int (take (nat s) ?sh)"
    using range by (simp add: si py_slice_map py_slice_prefix)
  have p2: "py_slice (shape_int32 x) (Some s) (Some (e + 1))
              = map int (take (nat e + 1 - nat s) (drop (nat s) ?sh))"
    using range py_slice_range [of s "e + 1" ?sh] ne by (simp add: si py_slice_map)
  have p3: "py_slice (shape_int32 x) (Some (e + 1)) None = map int (drop (nat e + 1) ?sh)"
    using range py_slice_suffix [of "e + 1" ?sh] ne by (simp add: si py_slice_map)
  have fd: "reduce_prod_int32 (py_slice (shape_int32 x) (Some s) (Some (e + 1))) = int ?P"
    using fit(2) by (simp add: p2 reduce_prod_int32_def prod_list_map_int wrap_int32_nat)
  have sh: "py_slice (shape_int32 x) None (Some s)
          @ [reduce_prod_int32 (py_slice (shape_int32 x) (Some s) (Some (e + 1)))]
          @ py_slice (shape_int32 x) (Some (e + 1)) None
        = map int ?out"
    by (simp add: p1 fd p3)
  have "nat s + (nat e + 1 - nat s) = nat e + 1" using range by simp
  with prod_list_split_range [of "nat s" ?sh "nat e + 1 - nat s"]
  have "prod_list ?out = length (elems x)"
    using wf by (simp add: wf_tensor_def)
  then have rs: "tf_reshape x ?out = Inr (mk_tensor ?out (elems x) (dtype x))"
    by (simp add: tf_reshape_def)
  have "flatten x start_dim end_dim = tf_reshape_int x (map int ?out)"
    using ae as range sh by (simp add: flatten_def Let_def)
  also have "\<dots> = tf_reshape x ?out" by (rule tf_reshape_int_nat)
  finally show ?thesis using rs by simp
qed

theorem flatten_collapses_range_witness:
  "wf_tensor x2345 \<and> add_rank 2 (rank x2345) = Inr 2 \<and> add_rank (- 3) (rank x2345) = Inr 1 \<and>
   list_all (\<lambda>d. d < 2 ^ 31) (dyn_shape x2345) \<and>
   flatten x2345 1 2 = Inr (mk_tensor [2, 12, 5] (elems x2345) Float32) \<and>
   flatten x2345 (- 3) (- 1) = Inr (mk_tensor [2, 60] (elems x2345) Float32)"
proof -
  have wf: "wf_tensor x2345" by (simp add: wf_tensor_def x2345_def)
  have r1: "add_rank 1 (rank x2345) = Inr 1" and r2: "add_rank 2 (rank x2345) = Inr 2"
    and r3: "add_rank (- 3) (rank x2345) = Inr 1" and r4: "add_rank (- 1) (rank x2345) = Inr 3"
    by (simp_all add: add_rank_def rank_def x2345_def)
  have f: "list_all (\<lambda>d. d < 2 ^ 31) (dyn_shape x2345)" by (simp add: x2345_def)
  have f12: "prod_list (take (nat 2 + 1 - nat 1) (drop (nat 1) (dyn_shape x2345))) < 2 ^ 31"
    and f13: "prod_list (take (nat 3 + 1 - nat 1) (drop (nat 1) (dyn_shape x2345))) < 2 ^ 31"
    by (simp_all add: x2345_def)
  have a: "flatten x2345 1 2 = Inr (mk_tensor [2, 12, 5] (elems x2345) Float32)"
    using flatten_collapses_range [OF wf r2 r1 _ _ f f12] by (simp add: x2345_def)
  have b: "flatten x2345 (- 3) (- 1) = Inr (mk_tensor [2, 60] (elems x2345) Float32)"
    using flatten_collapses_range [OF wf r4 r3 _ _ f f13] by (simp add: x2345_def)
  from wf r2 r3 f a b show ?thesis by simp
qed

text \<open>
  The claim without the two bounds fails. With \<^verbatim>\<open>start_dim = -5\<close> on a tensor of rank 4 the
  resolved \<^verbatim>\<open>start_dim\<close> is \<open>-1\<close>, less than the resolved \<^verbatim>\<open>end_dim = 3\<close>, and the slices
  of the shape read \<open>-1\<close> from the end: the result has the shape \<open>(2, 3, 4, 5)\<close> of the
  input, and no axis holds the product of several sizes. On the empty tensor of shape
  \<open>(65536, 65536, 0)\<close> the 32-bit product of the first two sizes wraps to 0, and the result
  has shape \<open>(0, 0)\<close>.
\<close>

theorem flatten_out_of_range_counterexample:
  "add_rank (- 5) (rank x2345) = Inr (- 1) \<and> add_rank (- 1) (rank x2345) = Inr 3 \<and>
   flatten x2345 (- 5) (- 1) = Inr (mk_tensor [2, 3, 4, 5] (elems x2345) Float32) \<and>
   flatten x2345 (- 5) (- 1) \<noteq> Inr (mk_tensor [120] (elems x2345) Float32) \<and>
   wf_tensor x_wide \<and>
   flatten x_wide 0 1 = Inr (mk_tensor [0, 0] [] Float32) \<and>
   flatten x_wide 0 1 \<noteq> Inr (mk_tensor [65536 * 65536, 0] [] Float32)"
proof -
  have r: "add_rank (- 5) (rank x2345) = Inr (- 1)" "add_rank (- 1) (rank x2345) = Inr 3"
    by (simp_all add: add_rank_def rank_def x2345_def)
  have ds: "dyn_shape x2345 = [2, 3, 4, 5]" "length (elems x2345) = 120" "dtype x2345 = Float32"
    by (simp_all add: x2345_def)
  have a: "flatten x2345 (- 5) (- 1) = Inr (mk_tensor [2, 3, 4, 5] (elems x2345) Float32)"
    by (simp add: flatten_def r shape_int32_def tf_shape_def ds py_slice_def slice_bound_def
          reduce_prod_int32_def wrap_int32_def tf_reshape_int_def Let_def)
  have n: "mk_tensor [2, 3, 4, 5] (elems x2345) Float32 \<noteq> mk_tensor [120] (elems x2345) Float32"
    by (simp add: mk_tensor_def)
  have w: "wf_tensor x_wide" by (simp add: wf_tensor_def x_wide_def)
  have r': "add_rank 0 (rank x_wide) = Inr 0" "add_rank 1 (rank x_wide) = Inr 1"
    by (simp_all add: add_rank_def)
  have ds': "dyn_shape x_wide = [65536, 65536, 0]" "elems x_wide = []" "dtype x_wide = Float32"
    by (simp_all add: x_wide_def)
  have b: "flatten x_wide 0 1 = Inr (mk_tensor [0, 0] [] Float32)"
    by (simp add: flatten_def r' shape_int32_def tf_shape_def ds' py_slice_def slice_bound_def
          reduce_prod_int32_def wrap_int32_def tf_reshape_int_def Let_def)
  have m: "mk_tensor [0, 0] [] Float32 \<noteq> mk_tensor [65536 * 65536, 0] [] Float32"
    by (simp add: mk_tensor_def)
  from r a n w b m show ?thesis by simp
qed

section \<open>Properties of invert_attention_mask\<close>

lemma flat_index_rank2_ext: "flat_index [b, 1, 1, s] [i, 0, 0, j] = flat_index [b, s] [i, j]"
  by simp

lemma flat_index_rank3_ext: "flat_index [b, 1, q, k] [i, 0, j, l] = flat_index [b, q, k] [i, j, l]"
  by simp

lemma flat_index_lt2: "i < b \<Longrightarrow> j < s \<Longrightarrow> i * s + j < b * (s::nat)"
proof -
  assume a: "i < b" "j < s"
  then have "i * s + j < i * s + s" by simp
  also have "\<dots> = (Suc i) * s" by simp
  also have "\<dots> \<le> b * s" using a by (intro mult_le_mono1) simp
  finally show ?thesis .
qed


text \<open>
  Claim C1. For a rank-2 mask of shape \<open>(b, s)\<close>, \<^verbatim>\<open>invert_attention_mask\<close> returns a tensor
  of shape \<open>(b, 1, 1, s)\<close>, and for a rank-3 mask of shape \<open>(b, q, k)\<close> one of shape
  \<open>(b, 1, q, k)\<close>; the value at each position is \<open>(1 - mask) * dtype_min\<close> for the mask's
  dtype: 0 where the mask is 1 and the dtype's most negative value where the mask is 0.
\<close>

theorem invert_attention_mask_value:
  "(wf_tensor (as_tensor m) \<and> rank (as_tensor m) = Some 2 \<and> dyn_shape (as_tensor m) = [b, s] \<longrightarrow>
      (\<exists>out. invert_attention_mask m = Inr out \<and> dyn_shape out = [b, 1, 1, s] \<and>
         (\<forall>i<b. \<forall>j<s.
            elem_at out [i, 0, 0, j]
              = (1 - elem_at (as_tensor m) [i, j]) * dtype_min (dtype (as_tensor m)) \<and>
            (elem_at (as_tensor m) [i, j] = 1 \<longrightarrow> elem_at out [i, 0, 0, j] = 0) \<and>
            (elem_at (as_tensor m) [i, j] = 0 \<longrightarrow>
               elem_at out [i, 0, 0, j] = dtype_min (dtype (as_tensor m)))))) \<and>
   (wf_tensor (as_tensor m) \<and> rank (as_tensor m) = Some 3 \<and> dyn_shape (as_tensor m) = [b, q, k] \<longrightarrow>
      (\<exists>out. invert_attention_mask m = Inr out \<and> dyn_shape out = [b, 1, q, k] \<and>
         (\<forall>i<b. \<forall>j<q. \<forall>l<k.
            elem_at out [i, 0, j, l]
              = (1 - elem_at (as_tensor m) [i, j, l]) * dtype_min (dtype (as_tensor m)) \<and>
            (elem_at (as_tensor m) [i, j, l] = 1 \<longrightarrow> elem_at out [i, 0, j, l] = 0) \<and>
            (elem_at (as_tensor m) [i, j, l] = 0 \<longrightarrow>
               elem_at out [i, 0, j, l] = dtype_min (dtype (as_tensor m))))))"
proof (intro conjI impI)
  assume h: "wf_tensor (as_tensor m) \<and> rank (as_tensor m) = Some 2 \<and> dyn_shape (as_tensor m) = [b, s]"
  let ?t = "as_tensor m"
  let ?out = "map_elems (\<lambda>v. v * dtype_min (dtype ?t)) (map_elems (\<lambda>v. 1 - v) (newaxis_after_first 2 ?t))"
  from h have len: "length (elems ?t) = b * s" by (simp add: wf_tensor_def)
  have inv: "invert_attention_mask m = Inr ?out"
    using h by (simp add: invert_attention_mask_def Let_def newaxis_after_first_def mk_tensor_def map_elems_def)
  have shp: "dyn_shape ?out = [b, 1, 1, s]"
    using h by (simp add: newaxis_after_first_def mk_tensor_def map_elems_def numeral_2_eq_2)
  have val: "elem_at ?out [i, 0, 0, j] = (1 - elem_at ?t [i, j]) * dtype_min (dtype ?t)"
    if "i < b" "j < s" for i j
  proof -
    from that have "i * s + j < b * s" by (rule flat_index_lt2)
    with len h show ?thesis
      by (simp add: elem_at_def newaxis_after_first_def mk_tensor_def map_elems_def numeral_2_eq_2)
  qed
  show "\<exists>out. invert_attention_mask m = Inr out \<and> dyn_shape out = [b, 1, 1, s] \<and>
         (\<forall>i<b. \<forall>j<s.
            elem_at out [i, 0, 0, j]
              = (1 - elem_at (as_tensor m) [i, j]) * dtype_min (dtype (as_tensor m)) \<and>
            (elem_at (as_tensor m) [i, j] = 1 \<longrightarrow> elem_at out [i, 0, 0, j] = 0) \<and>
            (elem_at (as_tensor m) [i, j] = 0 \<longrightarrow>
               elem_at out [i, 0, 0, j] = dtype_min (dtype (as_tensor m))))"
    using inv shp val by (intro exI [of _ ?out]) simp
next
  assume h: "wf_tensor (as_tensor m) \<and> rank (as_tensor m) = Some 3 \<and> dyn_shape (as_tensor m) = [b, q, k]"
  let ?t = "as_tensor m"
  let ?out = "map_elems (\<lambda>v. v * dtype_min (dtype ?t)) (map_elems (\<lambda>v. 1 - v) (newaxis_after_first 1 ?t))"
  from h have len: "length (elems ?t) = b * (q * k)" by (simp add: wf_tensor_def)
  have inv: "invert_attention_mask m = Inr ?out"
    using h by (simp add: invert_attention_mask_def Let_def newaxis_after_first_def mk_tensor_def map_elems_def)
  have shp: "dyn_shape ?out = [b, 1, q, k]"
    using h by (simp add: newaxis_after_first_def mk_tensor_def map_elems_def)
  have val: "elem_at ?out [i, 0, j, l] = (1 - elem_at ?t [i, j, l]) * dtype_min (dtype ?t)"
    if "i < b" "j < q" "l < k" for i j l
  proof -
    from that have "j * k + l < q * k" by (intro flat_index_lt2)
    with that have "i * (q * k) + (j * k + l) < b * (q * k)" by (intro flat_index_lt2)
    with len h show ?thesis
      by (simp add: elem_at_def newaxis_after_first_def mk_tensor_def map_elems_def)
  qed
  show "\<exists>out. invert_attention_mask m = Inr out \<and> dyn_shape out = [b, 1, q, k] \<and>
         (\<forall>i<b. \<forall>j<q. \<forall>l<k.
            elem_at out [i, 0, j, l]
              = (1 - elem_at (as_tensor m) [i, j, l]) * dtype_min (dtype (as_tensor m)) \<and>
            (elem_at (as_tensor m) [i, j, l] = 1 \<longrightarrow> elem_at out [i, 0, j, l] = 0) \<and>
            (elem_at (as_tensor m) [i, j, l] = 0 \<longrightarrow>
               elem_at out [i, 0, j, l] = dtype_min (dtype (as_tensor m))))"
    using inv shp val by (intro exI [of _ ?out]) simp
qed


theorem invert_attention_mask_value_witness:
  "wf_tensor (as_tensor mask15) \<and> rank (as_tensor mask15) = Some 2 \<and>
   dyn_shape (as_tensor mask15) = [1, 5] \<and>
   (\<exists>out. invert_attention_mask mask15 = Inr out \<and> dyn_shape out = [1, 1, 1, 5] \<and>
      elem_at out [0, 0, 0, 1] = 0 \<and> elem_at out [0, 0, 0, 2] = dtype_min Float32) \<and>
   wf_tensor (as_tensor mask122) \<and> rank (as_tensor mask122) = Some 3 \<and>
   dyn_shape (as_tensor mask122) = [1, 2, 2] \<and>
   (\<exists>out. invert_attention_mask mask122 = Inr out \<and> dyn_shape out = [1, 1, 2, 2] \<and>
      elem_at out [0, 0, 0, 0] = 0 \<and> elem_at out [0, 0, 0, 1] = dtype_min Float16)"
proof -
  have a: "wf_tensor (as_tensor mask15) \<and> rank (as_tensor mask15) = Some 2 \<and>
           dyn_shape (as_tensor mask15) = [1, 5]"
    by (simp add: mask15_def as_tensor_def wf_tensor_def rank_def)
  have b: "wf_tensor (as_tensor mask122) \<and> rank (as_tensor mask122) = Some 3 \<and>
           dyn_shape (as_tensor mask122) = [1, 2, 2]"
    by (simp add: mask122_def as_tensor_def convert_to_tensor_def mk_tensor_def wf_tensor_def rank_def)
  have v15: "elem_at (as_tensor mask15) [0, 1] = 1" "elem_at (as_tensor mask15) [0, 2] = 0"
    "dtype (as_tensor mask15) = Float32"
    by (simp_all add: mask15_def as_tensor_def elem_at_def)
  have v122: "elem_at (as_tensor mask122) [0, 0, 0] = 1" "elem_at (as_tensor mask122) [0, 0, 1] = 0"
    "dtype (as_tensor mask122) = Float16"
    by (simp_all add: mask122_def as_tensor_def convert_to_tensor_def mk_tensor_def elem_at_def)
  note t1 = conjunct1 [OF invert_attention_mask_value [where m = mask15 and b = 1 and s = 5], THEN mp, OF a]
  then obtain o1 where o1: "invert_attention_mask mask15 = Inr o1 \<and> dyn_shape o1 = [1, 1, 1, 5] \<and>
         (\<forall>i<1. \<forall>j<5.
            elem_at o1 [i, 0, 0, j]
              = (1 - elem_at (as_tensor mask15) [i, j]) * dtype_min (dtype (as_tensor mask15)) \<and>
            (elem_at (as_tensor mask15) [i, j] = 1 \<longrightarrow> elem_at o1 [i, 0, 0, j] = 0) \<and>
            (elem_at (as_tensor mask15) [i, j] = 0 \<longrightarrow>
               elem_at o1 [i, 0, 0, j] = dtype_min (dtype (as_tensor mask15))))" ..
  note e1 = o1 [THEN conjunct2, THEN conjunct2, rule_format]
  have r1: "elem_at o1 [0, 0, 0, 1] = 0"
    using e1 [of 0 1] v15 by simp
  have r1': "elem_at o1 [0, 0, 0, 2] = dtype_min Float32"
    using e1 [of 0 2] v15 by simp
  note t2 = conjunct2 [OF invert_attention_mask_value [where m = mask122 and b = 1 and q = 2 and k = 2], THEN mp, OF b]
  then obtain o2 where o2: "invert_attention_mask mask122 = Inr o2 \<and> dyn_shape o2 = [1, 1, 2, 2] \<and>
         (\<forall>i<1. \<forall>j<2. \<forall>l<2.
            elem_at o2 [i, 0, j, l]
              = (1 - elem_at (as_tensor mask122) [i, j, l]) * dtype_min (dtype (as_tensor mask122)) \<and>
            (elem_at (as_tensor mask122) [i, j, l] = 1 \<longrightarrow> elem_at o2 [i, 0, j, l] = 0) \<and>
            (elem_at (as_tensor mask122) [i, j, l] = 0 \<longrightarrow>
               elem_at o2 [i, 0, j, l] = dtype_min (dtype (as_tensor mask122))))" ..
  note e2 = o2 [THEN conjunct2, THEN conjunct2, rule_format]
  have r2: "elem_at o2 [0, 0, 0, 0] = 0"
    using e2 [of 0 0 0] v122 by simp
  have r2': "elem_at o2 [0, 0, 0, 1] = dtype_min Float16"
    using e2 [of 0 0 1] v122 by simp
  have x1: "\<exists>out. invert_attention_mask mask15 = Inr out \<and> dyn_shape out = [1, 1, 1, 5] \<and>
      elem_at out [0, 0, 0, 1] = 0 \<and> elem_at out [0, 0, 0, 2] = dtype_min Float32"
    using o1 r1 r1' by (intro exI [of _ o1]) simp
  have x2: "\<exists>out. invert_attention_mask mask122 = Inr out \<and> dyn_shape out = [1, 1, 2, 2] \<and>
      elem_at out [0, 0, 0, 0] = 0 \<and> elem_at out [0, 0, 0, 1] = dtype_min Float16"
    using o2 r2 r2' by (intro exI [of _ o2]) simp
  from a b x1 x2 show ?thesis by simp
qed

text \<open>
  Claim C6. When the rank of the input is neither 2 nor 3, \<^verbatim>\<open>invert_attention_mask\<close> fails
  with the error of reading an unbound local variable (\<^verbatim>\<open>UnboundLocalError\<close>): no branch
  assigns the result variable, and no validation error is raised for the rank.
\<close>

theorem invert_attention_mask_unbound:
  "rank (as_tensor m) \<noteq> Some 2 \<Longrightarrow> rank (as_tensor m) \<noteq> Some 3 \<Longrightarrow>
   invert_attention_mask m = Inl UnboundLocalError"
  by (simp add: invert_attention_mask_def Let_def)


theorem invert_attention_mask_unbound_witness:
  "rank (as_tensor mask5) \<noteq> Some 2 \<and> rank (as_tensor mask5) \<noteq> Some 3 \<and>
   invert_attention_mask mask5 = Inl UnboundLocalError"
proof -
  have a: "rank (as_tensor mask5) \<noteq> Some 2" and b: "rank (as_tensor mask5) \<noteq> Some 3"
    by (simp_all add: mask5_def as_tensor_def rank_def)
  from a b invert_attention_mask_unbound [OF a b] show ?thesis by simp
qed

section \<open>Properties of functional_layernorm\<close>

lemma tf_binop_error: "tf_binop f a b = Inl e \<Longrightarrow> e = InvalidArgumentError"
  by (auto simp: tf_binop_def split: if_splits option.splits)

lemma tf_reshape_error: "tf_reshape t s = Inl e \<Longrightarrow> e = InvalidArgumentError"
  by (auto simp: tf_reshape_def split: if_splits)

lemma resolve_axis_error: "resolve_axis r ax = Inl e \<Longrightarrow> e = InvalidArgumentError"
  by (auto simp: resolve_axis_def split: if_splits)

lemma py_index_error: "py_index xs i = Inl e \<Longrightarrow> e = IndexError"
  by (auto simp: py_index_def split: option.splits)

lemma py_set_index_error: "py_set_index xs i v = Inl e \<Longrightarrow> e = IndexError"
  by (auto simp: py_set_index_def split: option.splits)

lemma tf_moments_error: "tf_moments x ax = Inl e \<Longrightarrow> e = InvalidArgumentError"
  by (auto simp: tf_moments_def Let_def split: sum.splits dest: resolve_axis_error tf_binop_error)

lemma batch_normalization_error:
  "batch_normalization x mean variance offset scale eps = Inl e \<Longrightarrow> e = InvalidArgumentError"
  by (auto simp: batch_normalization_def split: sum.splits dest: tf_binop_error)

lemma shape_list_at_error:
  "shape_list_at inputs axis = Inl e \<Longrightarrow> e = IndexError \<or> e = InvalidArgumentError"
  by (auto simp: shape_list_at_def split: shape_list_result.splits sum.splits dest: py_index_error)

lemma layernorm_params_error:
  "layernorm_params inputs weight bias axis = Inl e \<Longrightarrow> e \<noteq> NotImplementedError"
  by (auto simp: layernorm_params_def split: if_splits option.splits sum.splits
           dest: shape_list_at_error py_set_index_error tf_reshape_error)


text \<open>
  Claim C4. \<^verbatim>\<open>functional_layernorm\<close> raises \<^verbatim>\<open>NotImplementedError\<close> if and only if the weight
  is not of rank 1, or the bias is not of rank 1, or the axis is not a single integer; when
  the three preconditions hold, whatever it does next does not raise that error.
\<close>

theorem functional_layernorm_not_implemented:
  "(functional_layernorm inputs weight bias epsilon axis = Inl NotImplementedError)
     = (rank weight \<noteq> Some 1 \<or> rank bias \<noteq> Some 1 \<or> \<not> isinstance_int axis)"
proof (cases "rank weight \<noteq> Some 1 \<or> rank bias \<noteq> Some 1 \<or> \<not> isinstance_int axis")
  case True
  then show ?thesis by (simp add: functional_layernorm_def)
next
  case False
  then obtain ax where ax: "axis = AxisInt ax" by (cases axis) auto
  have "functional_layernorm inputs weight bias epsilon axis \<noteq> Inl NotImplementedError"
  proof
    assume e: "functional_layernorm inputs weight bias epsilon axis = Inl NotImplementedError"
    show False
    proof (cases "tf_moments inputs ax")
      case (Inl err)
      with e False ax tf_moments_error [OF Inl] show False
        by (simp add: functional_layernorm_def)
    next
      case (Inr mv)
      obtain mean variance where mv: "mv = (mean, variance)" by (cases mv)
      show False
      proof (cases "layernorm_params inputs weight bias ax")
        case (Inl err)
        with e False ax Inr mv layernorm_params_error [OF Inl] show False
          by (simp add: functional_layernorm_def)
      next
        case (Inr wb)
        obtain w' b' where wb: "wb = (w', b')" by (cases wb)
        from e False ax \<open>tf_moments inputs ax = Inr mv\<close> mv Inr wb
        have "batch_normalization inputs mean variance b' w' epsilon = Inl NotImplementedError"
          by (simp add: functional_layernorm_def)
        from batch_normalization_error [OF this] show False by simp
      qed
    qed
  qed
  with False show ?thesis by simp
qed

theorem functional_layernorm_not_implemented_witness:
  "functional_layernorm ln_inputs ln_weight2d ln_zeros (1 / 10 ^ 5) (AxisInt (- 1))
     = Inl NotImplementedError \<and>
   functional_layernorm ln_inputs ln_ones ln_weight2d (1 / 10 ^ 5) (AxisInt (- 1))
     = Inl NotImplementedError \<and>
   functional_layernorm ln_inputs ln_ones ln_zeros (1 / 10 ^ 5) (AxisSeq [0, 1])
     = Inl NotImplementedError \<and>
   functional_layernorm ln_inputs ln_ones ln_zeros (1 / 10 ^ 5) (AxisInt (- 1))
     \<noteq> Inl NotImplementedError"
proof -
  have r: "rank ln_ones = Some 1" "rank ln_zeros = Some 1" "rank ln_weight2d = Some 2"
    by (simp_all add: rank_def ln_ones_def ln_zeros_def ln_weight2d_def)
  show ?thesis
    using functional_layernorm_not_implemented
            [of ln_inputs ln_weight2d ln_zeros "1 / 10 ^ 5" "AxisInt (- 1)"]
          functional_layernorm_not_implemented
            [of ln_inputs ln_ones ln_weight2d "1 / 10 ^ 5" "AxisInt (- 1)"]
          functional_layernorm_not_implemented
            [of ln_inputs ln_ones ln_zeros "1 / 10 ^ 5" "AxisSeq [0, 1]"]
          functional_layernorm_not_implemented
            [of ln_inputs ln_ones ln_zeros "1 / 10 ^ 5" "AxisInt (- 1)"]
    by (simp add: r)
qed


lemma py_position_lt: "py_position n i = Some j \<Longrightarrow> j < n"
  by (auto simp: py_position_def split: if_splits)

lemma prod_list_replicate_update:
  "a < r \<Longrightarrow> prod_list ((replicate r (1::nat))[a := n]) = n"
  by (simp add: upd_conv_take_nth_drop)

lemma layernorm_params_reshaped:
  assumes wf: "wf_tensor inputs"
    and rk: "rank inputs = Some r"
    and ax: "axis \<noteq> - 1"
    and pos: "py_position r axis = Some a"
    and lw: "length (elems weight) = dyn_shape inputs ! a"
    and lb: "length (elems bias) = dyn_shape inputs ! a"
  shows "layernorm_params inputs weight bias axis =
           Inr (mk_tensor ((replicate r 1)[a := dyn_shape inputs ! a]) (elems weight) (dtype weight),
                mk_tensor ((replicate r 1)[a := dyn_shape inputs ! a]) (elems bias) (dtype bias))"
proof -
  from rk obtain ds where ds: "static_shape inputs = Some ds" and r: "r = length ds"
    by (auto simp: rank_def)
  from pos have a: "a < r" by (rule py_position_lt)
  note sl = shape_list_values [OF wf ds]
  have ix: "shape_list_at inputs axis = Inr (mixed_dims 0 ds ! a)"
    using sl(1) pos r by (simp add: shape_list_at_def py_index_def length_mixed_dims)
  have st: "py_set_index (replicate r (Known 1)) axis (mixed_dims 0 ds ! a)
              = Inr ((replicate r (Known 1))[a := mixed_dims 0 ds ! a])"
    using pos by (simp add: py_set_index_def)
  have "dim_value inputs (mixed_dims 0 ds ! a) = map (dim_value inputs) (mixed_dims 0 ds) ! a"
    using a r by (simp add: length_mixed_dims)
  with sl(2) have dv: "dim_value inputs (mixed_dims 0 ds ! a) = dyn_shape inputs ! a" by simp
  have shp: "map (dim_value inputs) ((replicate r (Known 1))[a := mixed_dims 0 ds ! a])
               = (replicate r 1)[a := dyn_shape inputs ! a]"
    using dv by (simp add: map_update)
  have pr: "prod_list ((replicate r 1)[a := dyn_shape inputs ! a]) = dyn_shape inputs ! a"
    using a by (rule prod_list_replicate_update)
  show ?thesis
    using ax rk ix st shp pr lw lb
    by (simp add: layernorm_params_def tf_reshape_def)
qed

text \<open>
  Claim C5, as amended. The weight and the bias are reshaped if and only if \<^verbatim>\<open>axis\<close> is not the
  number \<open>-1\<close>. With \<^verbatim>\<open>axis = -1\<close> they reach the normalization as the rank-1 vectors they
  are. With any other axis number of the inputs (the positive number of the last axis
  included) both are reshaped to the rank of the inputs, with size 1 on every axis except
  \<^verbatim>\<open>axis\<close>, where the size is that of the inputs.
\<close>

theorem layernorm_params_reshape_iff:
  "(axis = - 1 \<longrightarrow> layernorm_params inputs weight bias axis = Inr (weight, bias)) \<and>
   (axis \<noteq> - 1 \<and> wf_tensor inputs \<and> rank inputs = Some r \<and> py_position r axis = Some a \<and>
    length (elems weight) = dyn_shape inputs ! a \<and> length (elems bias) = dyn_shape inputs ! a \<longrightarrow>
      layernorm_params inputs weight bias axis =
        Inr (mk_tensor ((replicate r 1)[a := dyn_shape inputs ! a]) (elems weight) (dtype weight),
             mk_tensor ((replicate r 1)[a := dyn_shape inputs ! a]) (elems bias) (dtype bias)))"
  using layernorm_params_reshaped [of inputs r axis a weight bias]
  by (simp add: layernorm_params_def)

lemma ln_inputs_facts:
  "wf_tensor ln_inputs" "rank ln_inputs = Some 2" "dyn_shape ln_inputs = [2, 2]"
  by (simp_all add: ln_inputs_def wf_tensor_def rank_def)

theorem layernorm_params_reshape_iff_witness:
  "layernorm_params ln_inputs ln_ones ln_zeros (- 1) = Inr (ln_ones, ln_zeros) \<and>
   py_position 2 0 = Some 0 \<and>
   layernorm_params ln_inputs ln_ones ln_zeros 0
     = Inr (mk_tensor [2, 1] [1, 1] Float32, mk_tensor [2, 1] [0, 0] Float32) \<and>
   py_position 2 (- 2) = Some 0 \<and>
   layernorm_params ln_inputs ln_ones ln_zeros (- 2)
     = Inr (mk_tensor [2, 1] [1, 1] Float32, mk_tensor [2, 1] [0, 0] Float32)"
proof -
  have p: "py_position 2 0 = Some 0" "py_position 2 (- 2) = Some 0"
    by (simp_all add: py_position_def)
  have e: "(replicate 2 1)[0 := dyn_shape ln_inputs ! 0] = [2, 1::nat]"
    by (simp add: ln_inputs_def numeral_2_eq_2)
  have d: "elems ln_ones = [1, 1]" "elems ln_zeros = [0, 0]"
    "dtype ln_ones = Float32" "dtype ln_zeros = Float32"
    by (simp_all add: ln_ones_def ln_zeros_def)
  show ?thesis
    using layernorm_params_reshape_iff [of "- 1" ln_inputs ln_ones ln_zeros 2 0]
      layernorm_params_reshape_iff [of 0 ln_inputs ln_ones ln_zeros 2 0, unfolded e d]
      layernorm_params_reshape_iff [of "- 2" ln_inputs ln_ones ln_zeros 2 0, unfolded e d]
      ln_inputs_facts(1,2) p
    by (simp add: ln_inputs_facts(3))
qed

text \<open>
  The claim as stated fails for the last axis given by its positive number: for inputs of
  rank 2 and \<^verbatim>\<open>axis = 1\<close> the weight and the bias are reshaped to \<open>(1, 2)\<close> and are not
  the rank-1 vectors that were passed.
\<close>

theorem layernorm_params_last_axis_counterexample:
  "rank ln_inputs = Some 2 \<and> py_position 2 1 = Some (2 - 1) \<and>
   layernorm_params ln_inputs ln_ones ln_zeros 1
     = Inr (mk_tensor [1, 2] [1, 1] Float32, mk_tensor [1, 2] [0, 0] Float32) \<and>
   layernorm_params ln_inputs ln_ones ln_zeros 1 \<noteq> Inr (ln_ones, ln_zeros)"
proof -
  have p: "py_position 2 1 = Some 1" by (simp add: py_position_def)
  have l: "length (elems ln_ones) = dyn_shape ln_inputs ! 1"
    "length (elems ln_zeros) = dyn_shape ln_inputs ! 1"
    by (simp_all add: ln_ones_def ln_zeros_def ln_inputs_def)
  have e: "(replicate 2 1)[1 := dyn_shape ln_inputs ! 1] = [1, 2::nat]"
    by (simp add: ln_inputs_def numeral_2_eq_2)
  have d: "elems ln_ones = [1, 1]" "elems ln_zeros = [0, 0]"
    "dtype ln_ones = Float32" "dtype ln_zeros = Float32"
    by (simp_all add: ln_ones_def ln_zeros_def)
  have v: "layernorm_params ln_inputs ln_ones ln_zeros 1
     = Inr (mk_tensor [1, 2] [1, 1] Float32, mk_tensor [1, 2] [0, 0] Float32)"
    using layernorm_params_reshaped [OF ln_inputs_facts(1,2) _ p l, unfolded e d] by simp
  have n: "mk_tensor [1, 2] [1, 1] Float32 \<noteq> ln_ones"
    by (simp add: mk_tensor_def ln_ones_def)
  from ln_inputs_facts(2) p v n show ?thesis by simp
qed

subsection \<open>Broadcasting against leading axes of size 1\<close>

lemma bcast_rev_replicate_ones:
  "k \<le> length xs \<Longrightarrow> bcast_rev xs (replicate k (Suc 0)) = Some xs"
proof (induction xs arbitrary: k)
  case Nil
  then show ?case by simp
next
  case (Cons x xs)
  then show ?case by (cases k) simp_all
qed

lemma bcast_rev_trailing_ones:
  "length ys + k \<le> length xs \<Longrightarrow> bcast_rev xs (ys @ replicate k (Suc 0)) = bcast_rev xs ys"
proof (induction xs ys rule: bcast_rev.induct)
  case (1 ys)
  then show ?case by simp
next
  case (2 x xs)
  then show ?case using bcast_rev_replicate_ones [of k "x # xs"] by simp
next
  case (3 x xs y ys)
  then show ?case by simp
qed

lemma bcast_rev_replicate_ones_left:
  "k \<le> length xs \<Longrightarrow> bcast_rev (replicate k (Suc 0)) xs = Some xs"
proof (induction xs arbitrary: k)
  case Nil
  then show ?case by simp
next
  case (Cons x xs)
  then show ?case by (cases k) auto
qed

lemma bcast_rev_trailing_ones_left:
  "length ys + k \<le> length xs \<Longrightarrow> bcast_rev (ys @ replicate k (Suc 0)) xs = bcast_rev ys xs"
proof (induction ys xs rule: bcast_rev.induct)
  case (1 xs)
  then show ?case using bcast_rev_replicate_ones_left [of k xs] by simp
next
  case (2 y ys)
  then show ?case by simp
next
  case (3 y ys x xs)
  then show ?case by simp
qed

lemma broadcast_shape_leading_ones:
  "length os + k \<le> length s \<Longrightarrow>
   broadcast_shape s (replicate k (Suc 0) @ os) = broadcast_shape s os"
  using bcast_rev_trailing_ones [of "rev os" k "rev s"] by (simp add: broadcast_shape_def)

lemma broadcast_shape_leading_ones_left:
  "length os + k \<le> length s \<Longrightarrow>
   broadcast_shape (replicate k (Suc 0) @ os) s = broadcast_shape os s"
  using bcast_rev_trailing_ones_left [of "rev os" k "rev s"] by (simp add: broadcast_shape_def)

lemma length_unravel: "length (unravel s p) = length s"
  by (induction s arbitrary: p) simp_all

lemma bcast_index_leading_one:
  assumes "Suc (length os) \<le> length rs"
  shows "bcast_index rs (Suc 0 # os) p = bcast_index rs os p"
proof -
  let ?idx = "unravel rs p"
  let ?n = "length rs - Suc (length os)"
  have n: "?n < length ?idx" using assms by (simp add: length_unravel)
  have "drop ?n ?idx = ?idx ! ?n # drop (Suc ?n) ?idx"
    using n by (simp add: Cons_nth_drop_Suc)
  moreover have "Suc ?n = length rs - length os" using assms by simp
  ultimately have "drop ?n ?idx = ?idx ! ?n # drop (length rs - length os) ?idx" by simp
  then show ?thesis by (simp add: bcast_index_def)
qed

lemma bcast_index_leading_ones:
  "length os + k \<le> length rs \<Longrightarrow> bcast_index rs (replicate k (Suc 0) @ os) p = bcast_index rs os p"
proof (induction k)
  case 0
  then show ?case by simp
next
  case (Suc k)
  then have "bcast_index rs (Suc 0 # (replicate k (Suc 0) @ os)) p = bcast_index rs (replicate k (Suc 0) @ os) p"
    by (intro bcast_index_leading_one) simp
  with Suc show ?case by simp
qed


lemma broadcast_elems_leading_ones:
  assumes "length (dyn_shape w) + k \<le> length rs"
    and "dyn_shape w' = replicate k (Suc 0) @ dyn_shape w"
    and "elems w' = elems w"
  shows "broadcast_elems rs w' = broadcast_elems rs w"
  using assms by (simp add: broadcast_elems_def bcast_index_leading_ones)

lemma length_bcast_rev:
  "bcast_rev xs ys = Some zs \<Longrightarrow> length zs = max (length xs) (length ys)"
proof (induction xs ys arbitrary: zs rule: bcast_rev.induct)
  case (1 ys)
  then show ?case by simp
next
  case (2 x xs)
  then show ?case by auto
next
  case (3 x xs y ys)
  then show ?case by (auto split: if_splits)
qed

lemma length_broadcast_shape:
  "broadcast_shape s1 s2 = Some rs \<Longrightarrow> length rs = max (length s1) (length s2)"
  by (auto simp: broadcast_shape_def dest: length_bcast_rev)

lemma tf_binop_leading_ones:
  assumes le: "length (dyn_shape w) + k \<le> length (dyn_shape a)"
    and sh: "dyn_shape w' = replicate k (Suc 0) @ dyn_shape w"
    and el: "elems w' = elems w"
    and dt: "dtype w' = dtype w"
  shows "tf_binop f a w' = tf_binop f a w" and "tf_binop f w' a = tf_binop f w a"
proof -
  have bs: "broadcast_shape (dyn_shape a) (dyn_shape w') = broadcast_shape (dyn_shape a) (dyn_shape w)"
    using le sh by (simp add: broadcast_shape_leading_ones)
  have bs': "broadcast_shape (dyn_shape w') (dyn_shape a) = broadcast_shape (dyn_shape w) (dyn_shape a)"
    using le sh by (simp add: broadcast_shape_leading_ones_left)
  have be: "broadcast_elems rs w' = broadcast_elems rs w"
    if "broadcast_shape (dyn_shape a) (dyn_shape w) = Some rs
        \<or> broadcast_shape (dyn_shape w) (dyn_shape a) = Some rs" for rs
  proof -
    from that have "length rs = max (length (dyn_shape a)) (length (dyn_shape w))"
      by (auto dest: length_broadcast_shape)
    with le have "length (dyn_shape w) + k \<le> length rs" by simp
    then show ?thesis using sh el by (rule broadcast_elems_leading_ones)
  qed
  show "tf_binop f a w' = tf_binop f a w"
    using bs dt be by (auto simp: tf_binop_def split: option.splits)
  show "tf_binop f w' a = tf_binop f w a"
    using bs' dt be by (auto simp: tf_binop_def split: option.splits)
qed

lemma tf_binop_rank:
  "tf_binop f a b = Inr c \<Longrightarrow>
   length (dyn_shape c) = max (length (dyn_shape a)) (length (dyn_shape b))"
  by (auto simp: tf_binop_def mk_tensor_def split: if_splits option.splits
           dest: length_broadcast_shape)

lemma dyn_shape_reduce_mean: "dyn_shape (reduce_mean t a) = (dyn_shape t)[a := 1]"
  by (simp add: reduce_mean_def Let_def mk_tensor_def)

lemma tf_moments_rank:
  assumes "tf_moments x ax = Inr (mean, variance)"
  shows "length (dyn_shape mean) = length (dyn_shape x)"
    and "length (dyn_shape variance) = length (dyn_shape x)"
proof -
  from assms obtain a sq where m: "mean = reduce_mean x a"
    and sq: "tf_binop (\<lambda>u v. (u - v)\<^sup>2) x mean = Inr sq"
    and v: "variance = reduce_mean sq a"
    by (auto simp: tf_moments_def Let_def split: sum.splits)
  from m show "length (dyn_shape mean) = length (dyn_shape x)"
    by (simp add: dyn_shape_reduce_mean)
  with tf_binop_rank [OF sq] v show "length (dyn_shape variance) = length (dyn_shape x)"
    by (simp add: dyn_shape_reduce_mean)
qed

lemma batch_normalization_leading_ones:
  assumes ls: "length (dyn_shape scale) + k \<le> length (dyn_shape variance)"
    and lo: "length (dyn_shape offset) + k \<le> length (dyn_shape mean)"
    and s: "dyn_shape scale' = replicate k (Suc 0) @ dyn_shape scale"
      "elems scale' = elems scale" "dtype scale' = dtype scale"
    and o: "dyn_shape offset' = replicate k (Suc 0) @ dyn_shape offset"
      "elems offset' = elems offset" "dtype offset' = dtype offset"
  shows "batch_normalization x mean variance offset' scale' eps
           = batch_normalization x mean variance offset scale eps"
proof -
  let ?inv0 = "map_elems (\<lambda>v. 1 / sqrt (v + eps)) variance"
  have "length (dyn_shape scale) + k \<le> length (dyn_shape ?inv0)"
    using ls by (simp add: map_elems_def mk_tensor_def)
  from tf_binop_leading_ones(1) [OF this s]
  have e1: "tf_binop (*) ?inv0 scale' = tf_binop (*) ?inv0 scale" .
  have e2: "tf_binop (-) offset' mi = tf_binop (-) offset mi"
    if "tf_binop (*) mean i = Inr mi" for i mi
  proof -
    from tf_binop_rank [OF that] lo
    have "length (dyn_shape offset) + k \<le> length (dyn_shape mi)" by simp
    from tf_binop_leading_ones(2) [OF this o] show ?thesis .
  qed
  show ?thesis
    unfolding batch_normalization_def e1
    by (auto split: sum.splits simp: e2)
qed

lemma wf_rank1_shape:
  assumes "wf_tensor w" and "rank w = Some 1"
  shows "dyn_shape w = [length (elems w)]"
proof -
  from assms(2) obtain d where "static_shape w = Some [d]"
    by (cases "static_shape w") (auto simp: rank_def length_Suc_conv)
  with assms(1) obtain n where "dyn_shape w = [n]"
    by (auto simp: wf_tensor_def list_all2_Cons1)
  with assms(1) show ?thesis by (simp add: wf_tensor_def)
qed

lemma wf_rank_length:
  "wf_tensor x \<Longrightarrow> rank x = Some r \<Longrightarrow> length (dyn_shape x) = r"
  by (auto simp: wf_tensor_def rank_def dest!: list_all2_lengthD)

lemma replicate_update_last:
  "0 < r \<Longrightarrow> (replicate r (Suc 0))[r - 1 := n] = replicate (r - 1) (Suc 0) @ [n]"
proof -
  assume "0 < r"
  then obtain m where m: "r = Suc m" by (cases r) auto
  have "replicate (Suc m) (Suc 0) = replicate m (Suc 0) @ [Suc 0]"
    by (simp add: replicate_append_same)
  then have "(replicate (Suc m) (Suc 0))[m := n] = (replicate m (Suc 0) @ [Suc 0])[m := n]"
    by (rule arg_cong)
  also have "\<dots> = replicate m (Suc 0) @ [n]"
    by (simp add: list_update_append)
  finally show ?thesis using m by simp
qed

text \<open>
  Claim C10. For inputs of rank \<open>r\<close> and a rank-1 weight and bias whose size is that of
  the last axis, \<^verbatim>\<open>functional_layernorm\<close> with \<^verbatim>\<open>axis = r - 1\<close> returns what it returns with
  \<^verbatim>\<open>axis = -1\<close>, although only the former reshapes the weight and the bias: the reshaped
  \<open>(1, ..., 1, C)\<close> tensor broadcasts as the rank-1 vector does.
\<close>

theorem functional_layernorm_last_axis_forms:
  assumes wfx: "wf_tensor inputs" and rk: "rank inputs = Some r" and r: "0 < r"
    and rw: "rank weight = Some 1" and rb: "rank bias = Some 1"
    and wfw: "wf_tensor weight" and wfb: "wf_tensor bias"
    and lw: "length (elems weight) = dyn_shape inputs ! (r - 1)"
    and lb: "length (elems bias) = dyn_shape inputs ! (r - 1)"
  shows "functional_layernorm inputs weight bias epsilon (AxisInt (int r - 1))
           = functional_layernorm inputs weight bias epsilon (AxisInt (- 1))"
proof -
  let ?C = "dyn_shape inputs ! (r - 1)"
  let ?w' = "mk_tensor ((replicate r 1)[r - 1 := ?C]) (elems weight) (dtype weight)"
  let ?b' = "mk_tensor ((replicate r 1)[r - 1 := ?C]) (elems bias) (dtype bias)"
  have len: "length (dyn_shape inputs) = r" using wfx rk by (rule wf_rank_length)
  have mom: "tf_moments inputs (int r - 1) = tf_moments inputs (- 1)"
    using r len by (simp add: tf_moments_def resolve_axis_def)
  have pos: "py_position r (int r - 1) = Some (r - 1)"
    using r by (simp add: py_position_def nat_diff_distrib')
  have ne: "int r - 1 \<noteq> - 1" using r by simp
  have par: "layernorm_params inputs weight bias (int r - 1) = Inr (?w', ?b')"
    using layernorm_params_reshaped [OF wfx rk ne pos lw lb] .
  have par': "layernorm_params inputs weight bias (- 1) = Inr (weight, bias)"
    by (simp add: layernorm_params_def)
  have sw: "dyn_shape weight = [?C]" using wf_rank1_shape [OF wfw rw] lw by simp
  have sb: "dyn_shape bias = [?C]" using wf_rank1_shape [OF wfb rb] lb by simp
  have w': "dyn_shape ?w' = replicate (r - 1) (Suc 0) @ dyn_shape weight"
    "elems ?w' = elems weight" "dtype ?w' = dtype weight"
    using r sw replicate_update_last [of r ?C] by (simp_all add: mk_tensor_def)
  have b': "dyn_shape ?b' = replicate (r - 1) (Suc 0) @ dyn_shape bias"
    "elems ?b' = elems bias" "dtype ?b' = dtype bias"
    using r sb replicate_update_last [of r ?C] by (simp_all add: mk_tensor_def)
  have bn: "batch_normalization inputs mean variance ?b' ?w' epsilon
              = batch_normalization inputs mean variance bias weight epsilon"
    if "tf_moments inputs (- 1) = Inr (mean, variance)" for mean variance
  proof -
    from tf_moments_rank [OF that] len
    have "length (dyn_shape mean) = r" "length (dyn_shape variance) = r" by simp_all
    with r sw sb have "length (dyn_shape weight) + (r - 1) \<le> length (dyn_shape variance)"
      "length (dyn_shape bias) + (r - 1) \<le> length (dyn_shape mean)" by simp_all
    from batch_normalization_leading_ones [OF this w' b'] show ?thesis .
  qed
  show ?thesis
    using rw rb mom par par' bn
    by (auto simp: functional_layernorm_def split: sum.splits)
qed

subsection \<open>Positions, multi-indices and broadcasting of equal ranks\<close>

lemma unravel_lt: "p < prod_list s \<Longrightarrow> list_all2 (<) (unravel s p) s"
proof (induction s arbitrary: p)
  case Nil
  then show ?case by simp
next
  case (Cons d ds)
  from Cons.prems have pos: "0 < prod_list ds" by (cases "prod_list ds = 0") auto
  from Cons.prems have "p div prod_list ds < d" by (simp add: less_mult_imp_div_less)
  moreover from pos have "p mod prod_list ds < prod_list ds" by simp
  ultimately show ?case using Cons.IH by simp
qed

lemma flat_index_lt: "list_all2 (<) idx s \<Longrightarrow> flat_index s idx < prod_list s"
proof (induction s arbitrary: idx)
  case Nil
  then show ?case by simp
next
  case (Cons d ds)
  from Cons.prems obtain i js where idx: "idx = i # js" and i: "i < d"
    and js: "list_all2 (<) js ds"
    by (auto simp: list_all2_Cons2)
  from Cons.IH [OF js] have "flat_index ds js < prod_list ds" .
  then have "i * prod_list ds + flat_index ds js < i * prod_list ds + prod_list ds" by simp
  also have "\<dots> = Suc i * prod_list ds" by simp
  also have "\<dots> \<le> d * prod_list ds" using i by (intro mult_le_mono1) simp
  finally show ?case using idx by simp
qed

lemma flat_index_unravel: "p < prod_list s \<Longrightarrow> flat_index s (unravel s p) = p"
proof (induction s arbitrary: p)
  case Nil
  then show ?case by simp
next
  case (Cons d ds)
  from Cons.prems have pos: "0 < prod_list ds" by (cases "prod_list ds = 0") auto
  then have "p mod prod_list ds < prod_list ds" by simp
  from Cons.IH [OF this] show ?case by simp
qed

text \<open>An operand of shape \<open>os\<close> fits a result of shape \<open>rs\<close> of the same rank.\<close>

lemma bcast_index_lt:
  assumes fits: "list_all2 (\<lambda>o' r. o' = r \<or> o' = Suc 0) os rs" and p: "p < prod_list rs"
  shows "bcast_index rs os p < prod_list os"
proof -
  from fits have len: "length os = length rs" by (rule list_all2_lengthD)
  let ?idx = "unravel rs p"
  let ?adj = "map2 (\<lambda>d i. if d = 1 then 0 else i) os ?idx"
  from unravel_lt [OF p] have lt: "list_all2 (<) ?idx rs" .
  have "list_all2 (<) ?adj os"
  proof (rule list_all2_all_nthI)
    show "length ?adj = length os" using len by (simp add: length_unravel)
  next
    fix n assume "n < length ?adj"
    then have n: "n < length os" by simp
    with len have "?idx ! n < rs ! n" using lt by (simp add: list_all2_conv_all_nth)
    moreover from fits n have "os ! n = rs ! n \<or> os ! n = Suc 0"
      by (simp add: list_all2_conv_all_nth)
    ultimately show "?adj ! n < os ! n" using n len by (auto simp: length_unravel)
  qed
  from flat_index_lt [OF this] show ?thesis using len by (simp add: bcast_index_def)
qed

lemma bcast_index_same: 
  assumes p: "p < prod_list rs"
  shows "bcast_index rs rs p = p"
proof -
  let ?idx = "unravel rs p"
  from unravel_lt [OF p] have lt: "list_all2 (<) ?idx rs" .
  have "map2 (\<lambda>d i. if d = 1 then 0 else i) rs ?idx = ?idx"
  proof (rule nth_equalityI)
    show "length (map2 (\<lambda>d i. if d = 1 then 0 else i) rs ?idx) = length ?idx"
      by (simp add: length_unravel)
  next
    fix n assume "n < length (map2 (\<lambda>d i. if d = 1 then 0 else i) rs ?idx)"
    then have n: "n < length rs" by simp
    with lt have "?idx ! n < rs ! n" by (simp add: list_all2_conv_all_nth)
    then show "map2 (\<lambda>d i. if d = 1 then 0 else i) rs ?idx ! n = ?idx ! n"
      using n by (auto simp: length_unravel)
  qed
  then show ?thesis using flat_index_unravel [OF p] by (simp add: bcast_index_def)
qed

lemma bcast_rev_same_length:
  "list_all2 (\<lambda>x y. x = y \<or> x = Suc 0 \<or> y = Suc 0) xs ys \<Longrightarrow>
   bcast_rev xs ys = Some (map2 (\<lambda>x y. if y = Suc 0 then x else y) xs ys)"
proof (induction xs ys rule: list_all2_induct)
  case Nil
  then show ?case by simp
next
  case (Cons x xs y ys)
  then show ?case by auto
qed

lemma broadcast_shape_same_length:
  assumes "list_all2 (\<lambda>x y. x = y \<or> x = Suc 0 \<or> y = Suc 0) s1 s2"
  shows "broadcast_shape s1 s2 = Some (map2 (\<lambda>x y. if y = Suc 0 then x else y) s1 s2)"
proof -
  from assms have len: "length s1 = length s2" by (rule list_all2_lengthD)
  from assms have "list_all2 (\<lambda>x y. x = y \<or> x = Suc 0 \<or> y = Suc 0) (rev s1) (rev s2)"
    by (simp add: list_all2_rev)
  from bcast_rev_same_length [OF this] len show ?thesis
    by (simp add: broadcast_shape_def zip_rev rev_map [symmetric])
qed

lemma broadcast_shape_fits:
  assumes "list_all2 (\<lambda>o' r. o' = r \<or> o' = Suc 0) os rs"
  shows "broadcast_shape os rs = Some rs" and "broadcast_shape rs os = Some rs"
proof -
  from assms have len: "length os = length rs" by (rule list_all2_lengthD)
  have c1: "list_all2 (\<lambda>x y. x = y \<or> x = Suc 0 \<or> y = Suc 0) os rs"
    using assms by (rule list_all2_mono) auto
  have c2: "list_all2 (\<lambda>x y. x = y \<or> x = Suc 0 \<or> y = Suc 0) rs os"
    using assms by (auto simp: list_all2_conv_all_nth)
  have m1: "map2 (\<lambda>x y. if y = Suc 0 then x else y) os rs = rs"
    using assms len by (intro nth_equalityI) (auto simp: list_all2_conv_all_nth)
  have m2: "map2 (\<lambda>x y. if y = Suc 0 then x else y) rs os = rs"
    using assms len by (intro nth_equalityI) (auto simp: list_all2_conv_all_nth)
  show "broadcast_shape os rs = Some rs" using broadcast_shape_same_length [OF c1] m1 by simp
  show "broadcast_shape rs os = Some rs" using broadcast_shape_same_length [OF c2] m2 by simp
qed

lemma broadcast_shape_axis:
  assumes a: "a < length s"
  shows "broadcast_shape (s[a := Suc 0]) ((replicate (length s) (Suc 0))[a := s ! a]) = Some s"
proof -
  let ?u = "s[a := Suc 0]" and ?v = "(replicate (length s) (Suc 0))[a := s ! a]"
  have c: "list_all2 (\<lambda>x y. x = y \<or> x = Suc 0 \<or> y = Suc 0) ?u ?v"
    using a by (auto simp: list_all2_conv_all_nth nth_list_update)
  have m: "map2 (\<lambda>x y. if y = Suc 0 then x else y) ?u ?v = s"
    using a by (intro nth_equalityI) (auto simp: nth_list_update)
  from broadcast_shape_same_length [OF c] m show ?thesis by simp
qed

lemma fits_axis_one: "list_all2 (\<lambda>o' r. o' = r \<or> o' = Suc 0) (s[a := Suc 0]) s"
proof (cases "a < length s")
  case True
  then show ?thesis by (auto simp: list_all2_conv_all_nth nth_list_update)
next
  case False
  then show ?thesis by (simp add: list_all2_conv_all_nth)
qed

lemma fits_axis_only:
  "a < length s \<Longrightarrow>
   list_all2 (\<lambda>o' r. o' = r \<or> o' = Suc 0) ((replicate (length s) (Suc 0))[a := s ! a]) s"
  by (auto simp: list_all2_conv_all_nth nth_list_update)

lemma fits_refl: "list_all2 (\<lambda>o' r. o' = r \<or> o' = Suc 0) s s"
  by (simp add: list_all2_conv_all_nth)

lemma tf_binop_eval:
  assumes "dtype a = dtype b"
    and "broadcast_shape (dyn_shape a) (dyn_shape b) = Some rs"
  shows "tf_binop f a b =
           Inr (mk_tensor rs
                  (map (\<lambda>p. f (elems a ! bcast_index rs (dyn_shape a) p)
                               (elems b ! bcast_index rs (dyn_shape b) p)) [0..<prod_list rs])
                  (dtype a))"
  using assms
  by (simp add: tf_binop_def broadcast_elems_def zip_map_map zip_same_conv_map comp_def)

lemma const_nth: "set xs \<subseteq> {c} \<Longrightarrow> j < length xs \<Longrightarrow> xs ! j = c"
  using nth_mem by fastforce

lemma tf_binop_const_const:
  assumes dt: "dtype a = dtype b"
    and bs: "broadcast_shape (dyn_shape a) (dyn_shape b) = Some rs"
    and fa: "list_all2 (\<lambda>o' r. o' = r \<or> o' = Suc 0) (dyn_shape a) rs"
    and fb: "list_all2 (\<lambda>o' r. o' = r \<or> o' = Suc 0) (dyn_shape b) rs"
    and la: "length (elems a) = prod_list (dyn_shape a)"
    and lb: "length (elems b) = prod_list (dyn_shape b)"
    and ca: "set (elems a) \<subseteq> {u}" and cb: "set (elems b) \<subseteq> {v}"
  obtains c where "tf_binop f a b = Inr c" and "dyn_shape c = rs" and "dtype c = dtype a"
    and "length (elems c) = prod_list rs" and "set (elems c) \<subseteq> {f u v}"
proof -
  let ?c = "mk_tensor rs
                  (map (\<lambda>p. f (elems a ! bcast_index rs (dyn_shape a) p)
                               (elems b ! bcast_index rs (dyn_shape b) p)) [0..<prod_list rs])
                  (dtype a)"
  have "f (elems a ! bcast_index rs (dyn_shape a) p) (elems b ! bcast_index rs (dyn_shape b) p)
          = f u v" if "p < prod_list rs" for p
    using bcast_index_lt [OF fa that] bcast_index_lt [OF fb that] la lb
      const_nth [OF ca] const_nth [OF cb] by simp
  then have "set (elems ?c) \<subseteq> {f u v}" by (auto simp: mk_tensor_def)
  moreover have "tf_binop f a b = Inr ?c" using dt bs by (rule tf_binop_eval)
  moreover have "dyn_shape ?c = rs" "dtype ?c = dtype a" "length (elems ?c) = prod_list rs"
    by (simp_all add: mk_tensor_def)
  ultimately show ?thesis using that by blast
qed

lemma tf_binop_any_const:
  assumes dt: "dtype a = dtype b"
    and fb: "list_all2 (\<lambda>o' r. o' = r \<or> o' = Suc 0) (dyn_shape b) (dyn_shape a)"
    and lb: "length (elems b) = prod_list (dyn_shape b)"
    and cb: "set (elems b) \<subseteq> {v}"
  obtains c where "tf_binop f a b = Inr c" and "dyn_shape c = dyn_shape a"
    and "dtype c = dtype a" and "length (elems c) = prod_list (dyn_shape a)"
    and "\<And>p. p < prod_list (dyn_shape a) \<Longrightarrow> elems c ! p = f (elems a ! p) v"
proof -
  let ?rs = "dyn_shape a"
  let ?c = "mk_tensor ?rs
                  (map (\<lambda>p. f (elems a ! bcast_index ?rs (dyn_shape a) p)
                               (elems b ! bcast_index ?rs (dyn_shape b) p)) [0..<prod_list ?rs])
                  (dtype a)"
  have bs: "broadcast_shape (dyn_shape a) (dyn_shape b) = Some ?rs"
    using fb by (rule broadcast_shape_fits(2))
  have "elems ?c ! p = f (elems a ! p) v" if "p < prod_list ?rs" for p
    using bcast_index_lt [OF fb that] bcast_index_same [OF that] lb const_nth [OF cb] that
    by (simp add: mk_tensor_def)
  moreover have "tf_binop f a b = Inr ?c" using dt bs by (rule tf_binop_eval)
  moreover have "dyn_shape ?c = ?rs" "dtype ?c = dtype a" "length (elems ?c) = prod_list ?rs"
    by (simp_all add: mk_tensor_def)
  ultimately show ?thesis using that by blast
qed

lemma prod_list_update_one:
  "a < length s \<Longrightarrow> prod_list (s[a := Suc 0]) = outer_size s a * inner_size s a"
  by (simp add: upd_conv_take_nth_drop outer_size_def inner_size_def)

lemma reduce_mean_facts:
  assumes "a < length (dyn_shape t)"
  shows "dyn_shape (reduce_mean t a) = (dyn_shape t)[a := Suc 0]"
    and "length (elems (reduce_mean t a)) = prod_list ((dyn_shape t)[a := Suc 0])"
    and "dtype (reduce_mean t a) = dtype t"
  using assms by (simp_all add: reduce_mean_def Let_def mk_tensor_def prod_list_update_one)

lemma resolve_axis_lt: "resolve_axis r ax = Inr a \<Longrightarrow> a < r"
  by (auto simp: resolve_axis_def split: if_splits)

lemma tf_moments_facts:
  assumes m: "tf_moments x ax = Inr (mean, variance)"
    and ra: "resolve_axis (length (dyn_shape x)) ax = Inr a"
  shows "dyn_shape mean = (dyn_shape x)[a := Suc 0]"
    and "length (elems mean) = prod_list ((dyn_shape x)[a := Suc 0])"
    and "dtype mean = dtype x"
    and "dyn_shape variance = (dyn_shape x)[a := Suc 0]"
    and "length (elems variance) = prod_list ((dyn_shape x)[a := Suc 0])"
    and "dtype variance = dtype x"
proof -
  from ra have a: "a < length (dyn_shape x)" by (rule resolve_axis_lt)
  from m ra obtain sq where mean: "mean = reduce_mean x a"
    and sq: "tf_binop (\<lambda>u v. (u - v)\<^sup>2) x mean = Inr sq"
    and v: "variance = reduce_mean sq a"
    by (auto simp: tf_moments_def Let_def split: sum.splits)
  note rm = reduce_mean_facts [OF a]
  from mean rm show "dyn_shape mean = (dyn_shape x)[a := Suc 0]"
    and "length (elems mean) = prod_list ((dyn_shape x)[a := Suc 0])"
    and "dtype mean = dtype x" by simp_all
  have "list_all2 (\<lambda>o' r. o' = r \<or> o' = Suc 0) (dyn_shape mean) (dyn_shape x)"
    using mean rm(1) fits_axis_one [of "dyn_shape x" a] by simp
  from broadcast_shape_fits(2) [OF this]
  have "broadcast_shape (dyn_shape x) (dyn_shape mean) = Some (dyn_shape x)" .
  with sq mean rm(3) have s: "dyn_shape sq = dyn_shape x" "dtype sq = dtype x"
    by (auto simp: tf_binop_def mk_tensor_def split: if_splits)
  with a have a': "a < length (dyn_shape sq)" by simp
  from v s reduce_mean_facts [OF a']
  show "dyn_shape variance = (dyn_shape x)[a := Suc 0]"
    and "length (elems variance) = prod_list ((dyn_shape x)[a := Suc 0])"
    and "dtype variance = dtype x" by simp_all
qed

subsection \<open>Normalized inputs\<close>

lemma batch_normalization_normalized:
  assumes a: "a < length (dyn_shape x)"
    and lx: "length (elems x) = prod_list (dyn_shape x)"
    and m: "dyn_shape mean = (dyn_shape x)[a := Suc 0]"
      "length (elems mean) = prod_list ((dyn_shape x)[a := Suc 0])"
      "dtype mean = dtype x" "set (elems mean) \<subseteq> {0}"
    and v: "dyn_shape variance = (dyn_shape x)[a := Suc 0]"
      "length (elems variance) = prod_list ((dyn_shape x)[a := Suc 0])"
      "dtype variance = dtype x" "set (elems variance) \<subseteq> {1}"
    and sc: "dyn_shape scale = (replicate (length (dyn_shape x)) (Suc 0))[a := dyn_shape x ! a]"
      "length (elems scale) = dyn_shape x ! a" "dtype scale = dtype x" "set (elems scale) \<subseteq> {1}"
    and off: "dyn_shape offset = (replicate (length (dyn_shape x)) (Suc 0))[a := dyn_shape x ! a]"
      "length (elems offset) = dyn_shape x ! a" "dtype offset = dtype x" "set (elems offset) \<subseteq> {0}"
  obtains out where "batch_normalization x mean variance offset scale eps = Inr out"
    and "dyn_shape out = dyn_shape x" and "dtype out = dtype x"
    and "length (elems out) = length (elems x)"
    and "\<And>p. p < length (elems x) \<Longrightarrow> elems out ! p = elems x ! p / sqrt (1 + eps)"
proof -
  let ?s = "dyn_shape x"
  let ?c = "1 / sqrt (1 + eps)"
  let ?inv0 = "map_elems (\<lambda>v. 1 / sqrt (v + eps)) variance"
  have pr: "prod_list ((replicate (length ?s) (Suc 0))[a := ?s ! a]) = ?s ! a"
    using prod_list_replicate_update [OF a] by simp
  have i0: "dyn_shape ?inv0 = ?s[a := Suc 0]" "dtype ?inv0 = dtype x"
    "length (elems ?inv0) = prod_list (dyn_shape ?inv0)" "set (elems ?inv0) \<subseteq> {?c}"
    using v by (auto simp: map_elems_def mk_tensor_def)
  have bs0: "broadcast_shape (dyn_shape ?inv0) (dyn_shape scale) = Some ?s"
    using broadcast_shape_axis [OF a] i0(1) sc(1) by simp
  obtain inv' where inv: "tf_binop (*) ?inv0 scale = Inr inv'" "dyn_shape inv' = ?s"
    "dtype inv' = dtype x" "length (elems inv') = prod_list ?s" "set (elems inv') \<subseteq> {?c * 1}"
  proof (rule tf_binop_const_const [of ?inv0 scale ?s "?c" 1 "(*)"])
    show "dtype ?inv0 = dtype scale" using i0 sc by simp
    show "broadcast_shape (dyn_shape ?inv0) (dyn_shape scale) = Some ?s" by (rule bs0)
    show "list_all2 (\<lambda>o' r. o' = r \<or> o' = Suc 0) (dyn_shape ?inv0) ?s"
      using i0(1) fits_axis_one [of ?s a] by simp
    show "list_all2 (\<lambda>o' r. o' = r \<or> o' = Suc 0) (dyn_shape scale) ?s"
      using sc(1) fits_axis_only [OF a] by simp
    show "length (elems ?inv0) = prod_list (dyn_shape ?inv0)" by (rule i0(3))
    show "length (elems scale) = prod_list (dyn_shape scale)" using sc pr by simp
    show "set (elems ?inv0) \<subseteq> {?c}" by (rule i0(4))
    show "set (elems scale) \<subseteq> {1}" by (rule sc(4))
  qed (use i0 in auto)
  let ?ci = "tf_cast inv' (dtype x)"
  have ci: "dyn_shape ?ci = ?s" "dtype ?ci = dtype x" "length (elems ?ci) = prod_list (dyn_shape ?ci)"
    "set (elems ?ci) \<subseteq> {?c}"
    using inv by (simp_all add: tf_cast_def)
  obtain scaled where scaled: "tf_binop (*) x ?ci = Inr scaled" "dyn_shape scaled = ?s"
    "dtype scaled = dtype x" "length (elems scaled) = prod_list ?s"
    "\<And>p. p < prod_list ?s \<Longrightarrow> elems scaled ! p = elems x ! p * ?c"
  proof (rule tf_binop_any_const [of x ?ci ?c "(*)"])
    show "dtype x = dtype ?ci" using ci by simp
    show "list_all2 (\<lambda>o' r. o' = r \<or> o' = Suc 0) (dyn_shape ?ci) ?s"
      using ci(1) fits_refl [of ?s] by simp
    show "length (elems ?ci) = prod_list (dyn_shape ?ci)" by (rule ci(3))
    show "set (elems ?ci) \<subseteq> {?c}" by (rule ci(4))
  qed auto
  obtain mi where mi: "tf_binop (*) mean inv' = Inr mi" "dyn_shape mi = ?s"
    "dtype mi = dtype x" "length (elems mi) = prod_list ?s" "set (elems mi) \<subseteq> {0 * (?c * 1)}"
  proof (rule tf_binop_const_const [of mean inv' ?s 0 "?c * 1" "(*)"])
    show "dtype mean = dtype inv'" using m inv by simp
    have f: "list_all2 (\<lambda>o' r. o' = r \<or> o' = Suc 0) (dyn_shape mean) ?s"
      using m(1) fits_axis_one [of ?s a] by simp
    from broadcast_shape_fits(1) [OF f] inv(2)
    show "broadcast_shape (dyn_shape mean) (dyn_shape inv') = Some ?s" by simp
    show "list_all2 (\<lambda>o' r. o' = r \<or> o' = Suc 0) (dyn_shape mean) ?s" by (rule f)
    show "list_all2 (\<lambda>o' r. o' = r \<or> o' = Suc 0) (dyn_shape inv') ?s"
      using inv(2) fits_refl [of ?s] by simp
    show "length (elems mean) = prod_list (dyn_shape mean)" using m by simp
    show "length (elems inv') = prod_list (dyn_shape inv')" using inv by simp
    show "set (elems mean) \<subseteq> {0}" by (rule m(4))
    show "set (elems inv') \<subseteq> {?c * 1}" by (rule inv(5))
  qed (use m in auto)
  obtain shift where shift: "tf_binop (-) offset mi = Inr shift" "dyn_shape shift = ?s"
    "dtype shift = dtype x" "length (elems shift) = prod_list ?s"
    "set (elems shift) \<subseteq> {0 - 0 * (?c * 1)}"
  proof (rule tf_binop_const_const [of offset mi ?s 0 "0 * (?c * 1)" "(-)"])
    show "dtype offset = dtype mi" using off mi by simp
    have f: "list_all2 (\<lambda>o' r. o' = r \<or> o' = Suc 0) (dyn_shape offset) ?s"
      using off(1) fits_axis_only [OF a] by simp
    from broadcast_shape_fits(1) [OF f] mi(2)
    show "broadcast_shape (dyn_shape offset) (dyn_shape mi) = Some ?s" by simp
    show "list_all2 (\<lambda>o' r. o' = r \<or> o' = Suc 0) (dyn_shape offset) ?s" by (rule f)
    show "list_all2 (\<lambda>o' r. o' = r \<or> o' = Suc 0) (dyn_shape mi) ?s"
      using mi(2) fits_refl [of ?s] by simp
    show "length (elems offset) = prod_list (dyn_shape offset)" using off pr by simp
    show "length (elems mi) = prod_list (dyn_shape mi)" using mi by simp
    show "set (elems offset) \<subseteq> {0}" by (rule off(4))
    show "set (elems mi) \<subseteq> {0 * (?c * 1)}" by (rule mi(5))
  qed (use off in auto)
  let ?cs = "tf_cast shift (dtype x)"
  have cs: "dyn_shape ?cs = ?s" "dtype ?cs = dtype x" "length (elems ?cs) = prod_list (dyn_shape ?cs)"
    "set (elems ?cs) \<subseteq> {0}"
    using shift by (simp_all add: tf_cast_def)
  obtain out where out: "tf_binop (+) scaled ?cs = Inr out" "dyn_shape out = dyn_shape scaled"
    "dtype out = dtype scaled" "length (elems out) = prod_list (dyn_shape scaled)"
    "\<And>p. p < prod_list (dyn_shape scaled) \<Longrightarrow> elems out ! p = elems scaled ! p + 0"
  proof (rule tf_binop_any_const [of scaled ?cs 0 "(+)"])
    show "dtype scaled = dtype ?cs" using cs scaled by simp
    show "list_all2 (\<lambda>o' r. o' = r \<or> o' = Suc 0) (dyn_shape ?cs) (dyn_shape scaled)"
      using cs(1) scaled(2) fits_refl [of ?s] by simp
    show "length (elems ?cs) = prod_list (dyn_shape ?cs)" by (rule cs(3))
    show "set (elems ?cs) \<subseteq> {0}" by (rule cs(4))
  qed auto
  have bn: "batch_normalization x mean variance offset scale eps = Inr out"
    using inv(1) scaled(1) mi(1) shift(1) out(1) by (simp add: batch_normalization_def)
  have "elems out ! p = elems x ! p / sqrt (1 + eps)" if "p < length (elems x)" for p
    using that out(5) [of p] scaled(5) [of p] scaled(2) lx by simp
  with bn out scaled lx show ?thesis using that by simp
qed


lemma resolve_axis_py_position:
  "resolve_axis r ax = Inr a \<Longrightarrow> py_position r ax = Some a"
  by (auto simp: resolve_axis_def py_position_def split: if_splits)

lemma resolve_axis_minus_one: "resolve_axis r (- 1) = Inr a \<Longrightarrow> 0 < r \<and> a = r - 1"
  by (auto simp: resolve_axis_def nat_diff_distrib' split: if_splits)

lemma functional_layernorm_as_batch_normalization:
  assumes wfx: "wf_tensor inputs" and rk: "rank inputs = Some r"
    and mom: "tf_moments inputs ax = Inr (mean, variance)"
    and ra: "resolve_axis (length (dyn_shape inputs)) ax = Inr a"
    and wfw: "wf_tensor weight" and wfb: "wf_tensor bias"
    and rw: "rank weight = Some 1" and rb: "rank bias = Some 1"
    and lw: "length (elems weight) = dyn_shape inputs ! a"
    and lb: "length (elems bias) = dyn_shape inputs ! a"
  shows "functional_layernorm inputs weight bias epsilon (AxisInt ax) =
           batch_normalization inputs mean variance
             (mk_tensor ((replicate r (Suc 0))[a := dyn_shape inputs ! a]) (elems bias) (dtype bias))
             (mk_tensor ((replicate r (Suc 0))[a := dyn_shape inputs ! a]) (elems weight) (dtype weight))
             epsilon"
proof -
  let ?C = "dyn_shape inputs ! a"
  let ?w' = "mk_tensor ((replicate r (Suc 0))[a := ?C]) (elems weight) (dtype weight)"
  let ?b' = "mk_tensor ((replicate r (Suc 0))[a := ?C]) (elems bias) (dtype bias)"
  have len: "length (dyn_shape inputs) = r" using wfx rk by (rule wf_rank_length)
  from ra len have pos: "py_position r ax = Some a" by (simp add: resolve_axis_py_position)
  show ?thesis
  proof (cases "ax = - 1")
    case False
    from layernorm_params_reshaped [OF wfx rk False pos lw lb]
    have "layernorm_params inputs weight bias ax = Inr (?w', ?b')" by simp
    with rw rb mom show ?thesis by (simp add: functional_layernorm_def)
  next
    case True
    with ra len have r: "0 < r" and a: "a = r - 1"
      using resolve_axis_minus_one [of r a] by simp_all
    have sw: "dyn_shape weight = [?C]" using wf_rank1_shape [OF wfw rw] lw by simp
    have sb: "dyn_shape bias = [?C]" using wf_rank1_shape [OF wfb rb] lb by simp
    have w': "dyn_shape ?w' = replicate (r - 1) (Suc 0) @ dyn_shape weight"
      "elems ?w' = elems weight" "dtype ?w' = dtype weight"
      using r a sw replicate_update_last [of r ?C] by (simp_all add: mk_tensor_def)
    have b': "dyn_shape ?b' = replicate (r - 1) (Suc 0) @ dyn_shape bias"
      "elems ?b' = elems bias" "dtype ?b' = dtype bias"
      using r a sb replicate_update_last [of r ?C] by (simp_all add: mk_tensor_def)
    from tf_moments_rank [OF mom] len
    have "length (dyn_shape mean) = r" "length (dyn_shape variance) = r" by simp_all
    with r sw sb have "length (dyn_shape weight) + (r - 1) \<le> length (dyn_shape variance)"
      "length (dyn_shape bias) + (r - 1) \<le> length (dyn_shape mean)" by simp_all
    from batch_normalization_leading_ones [OF this w' b']
    have "batch_normalization inputs mean variance ?b' ?w' epsilon
            = batch_normalization inputs mean variance bias weight epsilon" .
    with True rw rb mom show ?thesis
      by (simp add: functional_layernorm_def layernorm_params_def)
  qed
qed

lemma functional_layernorm_normalized:
  assumes wfx: "wf_tensor inputs" and rk: "rank inputs = Some r"
    and mom: "tf_moments inputs ax = Inr (mean, variance)"
    and m0: "set (elems mean) \<subseteq> {0}" and v1: "set (elems variance) \<subseteq> {1}"
    and ra: "resolve_axis r ax = Inr a"
    and wfw: "wf_tensor weight" and wfb: "wf_tensor bias"
    and rw: "rank weight = Some 1" and rb: "rank bias = Some 1"
    and lw: "length (elems weight) = dyn_shape inputs ! a"
    and lb: "length (elems bias) = dyn_shape inputs ! a"
    and w1: "set (elems weight) \<subseteq> {1}" and b0: "set (elems bias) \<subseteq> {0}"
    and dw: "dtype weight = dtype inputs" and db: "dtype bias = dtype inputs"
  obtains out where "functional_layernorm inputs weight bias epsilon (AxisInt ax) = Inr out"
    and "dyn_shape out = dyn_shape inputs" and "dtype out = dtype inputs"
    and "length (elems out) = length (elems inputs)"
    and "\<And>p. p < length (elems inputs) \<Longrightarrow>
           elems out ! p = elems inputs ! p / sqrt (1 + epsilon)"
proof -
  let ?C = "dyn_shape inputs ! a"
  let ?w' = "mk_tensor ((replicate r (Suc 0))[a := ?C]) (elems weight) (dtype weight)"
  let ?b' = "mk_tensor ((replicate r (Suc 0))[a := ?C]) (elems bias) (dtype bias)"
  have len: "length (dyn_shape inputs) = r" using wfx rk by (rule wf_rank_length)
  from ra len have ra': "resolve_axis (length (dyn_shape inputs)) ax = Inr a" by simp
  from ra' have a: "a < length (dyn_shape inputs)" by (rule resolve_axis_lt)
  have lx: "length (elems inputs) = prod_list (dyn_shape inputs)"
    using wfx by (simp add: wf_tensor_def)
  note mf = tf_moments_facts [OF mom ra']
  have fl: "functional_layernorm inputs weight bias epsilon (AxisInt ax)
              = batch_normalization inputs mean variance ?b' ?w' epsilon"
    using wfx rk mom ra' wfw wfb rw rb lw lb by (rule functional_layernorm_as_batch_normalization)
  obtain out where out: "batch_normalization inputs mean variance ?b' ?w' epsilon = Inr out"
    "dyn_shape out = dyn_shape inputs" "dtype out = dtype inputs"
    "length (elems out) = length (elems inputs)"
    "\<And>p. p < length (elems inputs) \<Longrightarrow> elems out ! p = elems inputs ! p / sqrt (1 + epsilon)"
  proof (rule batch_normalization_normalized [OF a lx mf(1-3) m0 mf(4-6) v1, of ?w' ?b' epsilon])
    show "dyn_shape ?w' = (replicate (length (dyn_shape inputs)) (Suc 0))[a := ?C]"
      "dyn_shape ?b' = (replicate (length (dyn_shape inputs)) (Suc 0))[a := ?C]"
      using len by (simp_all add: mk_tensor_def)
    show "length (elems ?w') = ?C" "length (elems ?b') = ?C"
      using lw lb by (simp_all add: mk_tensor_def)
    show "dtype ?w' = dtype inputs" "dtype ?b' = dtype inputs"
      using dw db by (simp_all add: mk_tensor_def)
    show "set (elems ?w') \<subseteq> {1}" "set (elems ?b') \<subseteq> {0}"
      using w1 b0 by (simp_all add: mk_tensor_def)
  qed auto
  with fl that show ?thesis by simp
qed


lemma ln_moments_last:
  "tf_moments ln_inputs (- 1)
     = Inr (mk_tensor [2, 1] [0, 0] Float32, mk_tensor [2, 1] [1, 1] Float32)"
  by code_simp

lemma ln_params_facts:
  "wf_tensor ln_ones" "wf_tensor ln_zeros" "rank ln_ones = Some 1" "rank ln_zeros = Some 1"
  "length (elems ln_ones) = dyn_shape ln_inputs ! 1"
  "length (elems ln_zeros) = dyn_shape ln_inputs ! 1"
  "set (elems ln_ones) \<subseteq> {1}" "set (elems ln_zeros) \<subseteq> {0}"
  "dtype ln_ones = dtype ln_inputs" "dtype ln_zeros = dtype ln_inputs"
  by (simp_all add: ln_ones_def ln_zeros_def ln_inputs_def wf_tensor_def rank_def)



theorem functional_layernorm_last_axis_forms_witness:
  "wf_tensor ln_inputs \<and> rank ln_inputs = Some 2 \<and>
   functional_layernorm ln_inputs ln_ones ln_zeros (1 / 10 ^ 5) (AxisInt 1)
     = functional_layernorm ln_inputs ln_ones ln_zeros (1 / 10 ^ 5) (AxisInt (- 1)) \<and>
   (\<exists>out. functional_layernorm ln_inputs ln_ones ln_zeros (1 / 10 ^ 5) (AxisInt 1) = Inr out)"
proof -
  have m0: "set (elems (mk_tensor [2, 1] [0, 0] Float32)) \<subseteq> {0}"
    and v1: "set (elems (mk_tensor [2, 1] [1, 1] Float32)) \<subseteq> {1}"
    by (simp_all add: mk_tensor_def)
  have ra: "resolve_axis 2 (- 1) = Inr 1" by (simp add: resolve_axis_def)
  have l: "length (elems ln_ones) = dyn_shape ln_inputs ! (2 - 1)"
    "length (elems ln_zeros) = dyn_shape ln_inputs ! (2 - 1)"
    using ln_params_facts(5,6) by simp_all
  have eq: "functional_layernorm ln_inputs ln_ones ln_zeros (1 / 10 ^ 5) (AxisInt 1)
     = functional_layernorm ln_inputs ln_ones ln_zeros (1 / 10 ^ 5) (AxisInt (- 1))"
    using functional_layernorm_last_axis_forms
            [OF ln_inputs_facts(1,2) _ ln_params_facts(3,4,1,2) l, of "1 / 10 ^ 5"]
    by simp
  from functional_layernorm_normalized
         [OF ln_inputs_facts(1,2) ln_moments_last m0 v1 ra ln_params_facts, of "1 / 10 ^ 5"]
  obtain out where "functional_layernorm ln_inputs ln_ones ln_zeros (1 / 10 ^ 5) (AxisInt (- 1)) = Inr out"
    by auto
  with eq ln_inputs_facts(1,2) show ?thesis by simp
qed

section \<open>Properties of stable_softmax\<close>

lemma div_lane: "r < L \<Longrightarrow> (q * L + r) div L = (q::nat)"
  by simp

lemma lane_position:
  fixes n inner outer :: nat
  assumes i: "i < inner" and k: "k < n" and o: "o' < outer"
  shows "(o' * n + k) * inner + i < outer * (n * inner)"
    and "((o' * n + k) * inner + i) div (n * inner) = o'"
    and "((o' * n + k) * inner + i) mod inner = i"
proof -
  have r: "k * inner + i < n * inner"
  proof -
    have "k * inner + i < k * inner + inner" using i by simp
    also have "\<dots> = Suc k * inner" by simp
    also have "\<dots> \<le> n * inner" using k by (intro mult_le_mono1) simp
    finally show ?thesis .
  qed
  have e: "(o' * n + k) * inner + i = o' * (n * inner) + (k * inner + i)"
    by (simp add: algebra_simps)
  have "o' * (n * inner) + (k * inner + i) < o' * (n * inner) + n * inner" using r by simp
  also have "\<dots> = Suc o' * (n * inner)" by simp
  also have "\<dots> \<le> outer * (n * inner)" using o by (intro mult_le_mono1) simp
  finally show "(o' * n + k) * inner + i < outer * (n * inner)" using e by simp
  have "(o' * (n * inner) + (k * inner + i)) div (n * inner) = o'"
    using r by (rule div_lane)
  then show "((o' * n + k) * inner + i) div (n * inner) = o'" by (simp only: e)
  show "((o' * n + k) * inner + i) mod inner = i" using i by simp
qed

lemma lane_of_position:
  fixes n inner outer :: nat
  assumes "p < outer * (n * inner)"
  shows "p div (n * inner) < outer" and "p mod inner < inner" and "0 < n"
proof -
  from assms have pos: "0 < n * inner" by (cases "n * inner = 0") auto
  then show "0 < n" and "p mod inner < inner" by simp_all
  from assms show "p div (n * inner) < outer" by (simp add: less_mult_imp_div_less)
qed

lemma position_in_lane:
  fixes n inner :: nat
  assumes "0 < n * inner"
  shows "(p div (n * inner) * n + (p div inner) mod n) * inner + p mod inner = p"
proof -
  have "p div (n * inner) = (p div inner) div n"
    by (simp add: div_mult2_eq mult.commute)
  then have "p div (n * inner) * n + (p div inner) mod n = p div inner"
    by (simp add: mult.commute)
  then show ?thesis by (simp add: mult.commute)
qed

lemma prod_list_axis:
  "a < length s \<Longrightarrow> prod_list s = outer_size s a * (s ! a * inner_size s a)"
proof -
  assume "a < length s"
  then have "s = take a s @ s ! a # drop (Suc a) s" by (rule id_take_nth_drop)
  then have "prod_list s = prod_list (take a s @ s ! a # drop (Suc a) s)" by simp
  then show ?thesis by (simp add: outer_size_def inner_size_def)
qed

lemma sum_list_exp_pos: "xs \<noteq> [] \<Longrightarrow> 0 < sum_list (map exp (xs :: real list))"
proof (induction xs)
  case Nil
  then show ?case by simp
next
  case (Cons x xs)
  show ?case
  proof (cases "xs = []")
    case True
    then show ?thesis by simp
  next
    case False
    with Cons.IH have "0 < sum_list (map exp xs)" by simp
    then show ?thesis by (simp add: add_pos_pos)
  qed
qed

lemma lane_at_nth:
  assumes "a < length s" and "length xs = prod_list s"
    and "o' < outer_size s a" and "i < inner_size s a"
  shows "lane_at s a (map f xs) o' i = map f (lane_at s a xs o' i)"
proof -
  have "(o' * (s ! a) + k) * inner_size s a + i < length xs" if "k < s ! a" for k
    using lane_position(1) [OF assms(4) that assms(3)] prod_list_axis [OF assms(1)] assms(2)
    by simp
  then show ?thesis by (simp add: lane_at_def)
qed

lemma lane_through_map:
  assumes a: "a < length s" and len: "length xs = prod_list s" and p: "p < prod_list s"
  shows "lane_through s a (map f xs) p = map f (lane_through s a xs p)"
proof -
  from p prod_list_axis [OF a]
  have "p < outer_size s a * (s ! a * inner_size s a)" by simp
  from lane_of_position(1,2) [OF this] show ?thesis
    unfolding lane_through_def by (intro lane_at_nth [OF a len])
qed

lemma lane_through_nonempty:
  assumes a: "a < length s" and p: "p < prod_list s"
  shows "lane_through s a xs p \<noteq> []"
proof -
  from p prod_list_axis [OF a]
  have "p < outer_size s a * (s ! a * inner_size s a)" by simp
  from lane_of_position(3) [OF this] show ?thesis
    by (simp add: lane_through_def lane_at_def)
qed

lemma softmax_along_shift:
  assumes a: "a < length (dyn_shape t)" and len: "length (elems t) = prod_list (dyn_shape t)"
  shows "softmax_along (map_elems (\<lambda>v. v + c) t) a = softmax_along t a"
proof -
  let ?s = "dyn_shape t" and ?xs = "elems t"
  have "exp (map (\<lambda>v. v + c) ?xs ! p)
          / sum_list (map exp (lane_through ?s a (map (\<lambda>v. v + c) ?xs) p))
        = exp (?xs ! p) / sum_list (map exp (lane_through ?s a ?xs p))"
    if p: "p < prod_list ?s" for p
  proof -
    let ?S = "sum_list (map exp (lane_through ?s a ?xs p))"
    have "map exp (lane_through ?s a (map (\<lambda>v. v + c) ?xs) p)
            = map (\<lambda>v. exp c * exp v) (lane_through ?s a ?xs p)"
      by (simp add: lane_through_map [OF a len p] exp_add mult.commute)
    then have "sum_list (map exp (lane_through ?s a (map (\<lambda>v. v + c) ?xs) p)) = exp c * ?S"
      by (simp add: sum_list_const_mult)
    moreover have "exp (map (\<lambda>v. v + c) ?xs ! p) = exp c * exp (?xs ! p)"
      using p len by (simp add: exp_add mult.commute)
    ultimately show ?thesis by simp
  qed
  then show ?thesis
    by (simp add: softmax_along_def map_elems_def mk_tensor_def Let_def)
qed

lemma softmax_along_lane_sum:
  assumes a: "a < length (dyn_shape t)" and len: "length (elems t) = prod_list (dyn_shape t)"
    and p: "p < prod_list (dyn_shape t)"
  shows "sum_list (lane_through (dyn_shape t) a (elems (softmax_along t a)) p) = 1"
proof -
  let ?s = "dyn_shape t" and ?xs = "elems t"
  let ?n = "?s ! a" and ?inner = "inner_size ?s a" and ?outer = "outer_size ?s a"
  let ?o = "p div (?n * ?inner)" and ?i = "p mod ?inner"
  let ?q = "\<lambda>k. (?o * ?n + k) * ?inner + ?i"
  let ?S = "sum_list (map exp (lane_through ?s a ?xs p))"
  have N: "prod_list ?s = ?outer * (?n * ?inner)" using a by (rule prod_list_axis)
  with p have p': "p < ?outer * (?n * ?inner)" by simp
  note op = lane_of_position [OF p']
  have S: "0 < ?S" using lane_through_nonempty [OF a p] by (rule sum_list_exp_pos)
  have q: "?q k < prod_list ?s" "lane_through ?s a ?xs (?q k) = lane_through ?s a ?xs p"
    if "k < ?n" for k
    using lane_position [OF op(2) that op(1)] N by (simp_all add: lane_through_def)
  have el: "elems (softmax_along t a) ! ?q k = exp (?xs ! ?q k) / ?S" if "k < ?n" for k
  proof -
    have "elems (softmax_along t a) ! ?q k
            = exp (?xs ! ?q k) / sum_list (map exp (lane_through ?s a ?xs (?q k)))"
      using q(1) [OF that] by (simp add: softmax_along_def mk_tensor_def Let_def)
    with q(2) [OF that] show ?thesis by simp
  qed
  have "lane_through ?s a (elems (softmax_along t a)) p
          = map (\<lambda>k. elems (softmax_along t a) ! ?q k) [0..<?n]"
    by (simp add: lane_through_def lane_at_def)
  also have "\<dots> = map (\<lambda>k. exp (?xs ! ?q k) / ?S) [0..<?n]"
    using el by (intro map_cong) simp_all
  finally have "lane_through ?s a (elems (softmax_along t a)) p
          = map (\<lambda>k. exp (?xs ! ?q k) / ?S) [0..<?n]" .
  then have "sum_list (lane_through ?s a (elems (softmax_along t a)) p)
          = sum_list (map (\<lambda>k. exp (?xs ! ?q k) * (1 / ?S)) [0..<?n])" by simp
  also have "\<dots> = sum_list (map (\<lambda>k. exp (?xs ! ?q k)) [0..<?n]) * (1 / ?S)"
    by (rule sum_list_mult_const)
  also have "sum_list (map (\<lambda>k. exp (?xs ! ?q k)) [0..<?n]) = ?S"
    by (simp add: lane_through_def lane_at_def comp_def)
  finally show ?thesis using S by simp
qed

lemma resolve_axis_last: "resolve_axis r (int r - 1) = resolve_axis r (- 1)"
  by (cases "r = 0") (simp_all add: resolve_axis_def)

lemma stable_softmax_eq_softmax:
  assumes "wf_tensor logits"
  shows "stable_softmax logits axis = tf_softmax logits axis"
proof -
  let ?ax = "case axis of None \<Rightarrow> - 1 | Some n \<Rightarrow> n"
  have len: "length (elems logits) = prod_list (dyn_shape logits)"
    using assms by (simp add: wf_tensor_def)
  have ds: "dyn_shape (map_elems f logits) = dyn_shape logits" for f
    by (simp add: map_elems_def mk_tensor_def)
  show ?thesis
  proof (cases "resolve_axis (length (dyn_shape logits)) ?ax")
    case (Inl e)
    then show ?thesis by (simp add: stable_softmax_def tf_softmax_def ds)
  next
    case (Inr a)
    then have "a < length (dyn_shape logits)" by (rule resolve_axis_lt)
    from softmax_along_shift [OF this len] Inr show ?thesis
      by (simp add: stable_softmax_def tf_softmax_def ds)
  qed
qed

text \<open>
  Claim C2. \<^verbatim>\<open>stable_softmax(logits, axis)\<close> is the softmax of \<^verbatim>\<open>logits + 1e-9\<close> along the axis;
  in exact arithmetic that is the softmax of \<^verbatim>\<open>logits\<close> itself (so the two agree within any
  tolerance); an absent axis is the last axis; and for every axis of the logits the
  function returns a tensor of the shape of the logits in which every lane along the axis
  sums to 1.
\<close>

theorem stable_softmax_is_softmax:
  assumes wf: "wf_tensor logits"
  shows "stable_softmax logits axis = tf_softmax (map_elems (\<lambda>v. v + 1 / 10 ^ 9) logits) axis \<and>
         stable_softmax logits axis = tf_softmax logits axis \<and>
         stable_softmax logits None
           = stable_softmax logits (Some (int (length (dyn_shape logits)) - 1)) \<and>
         (\<forall>a. resolve_axis (length (dyn_shape logits)) (case axis of None \<Rightarrow> - 1 | Some n \<Rightarrow> n) = Inr a \<longrightarrow>
            (\<exists>out. stable_softmax logits axis = Inr out \<and> dyn_shape out = dyn_shape logits \<and>
               dtype out = dtype logits \<and> length (elems out) = length (elems logits) \<and>
               (\<forall>p<length (elems out).
                  sum_list (lane_through (dyn_shape out) a (elems out) p) = 1)))"
proof (intro conjI allI impI)
  show "stable_softmax logits axis = tf_softmax (map_elems (\<lambda>v. v + 1 / 10 ^ 9) logits) axis"
    by (simp add: stable_softmax_def)
  show eq: "stable_softmax logits axis = tf_softmax logits axis"
    using wf by (rule stable_softmax_eq_softmax)
  show "stable_softmax logits None
          = stable_softmax logits (Some (int (length (dyn_shape logits)) - 1))"
    using resolve_axis_last [of "length (dyn_shape logits)"]
    by (simp add: stable_softmax_def tf_softmax_def map_elems_def mk_tensor_def)
  fix a
  assume ra: "resolve_axis (length (dyn_shape logits)) (case axis of None \<Rightarrow> - 1 | Some n \<Rightarrow> n) = Inr a"
  then have a: "a < length (dyn_shape logits)" by (rule resolve_axis_lt)
  have len: "length (elems logits) = prod_list (dyn_shape logits)"
    using wf by (simp add: wf_tensor_def)
  let ?out = "softmax_along logits a"
  have r: "stable_softmax logits axis = Inr ?out"
    using eq ra by (simp add: tf_softmax_def)
  have f: "dyn_shape ?out = dyn_shape logits" "dtype ?out = dtype logits"
    "length (elems ?out) = length (elems logits)"
    using len by (simp_all add: softmax_along_def mk_tensor_def Let_def)
  have "sum_list (lane_through (dyn_shape ?out) a (elems ?out) p) = 1"
    if "p < length (elems ?out)" for p
    using softmax_along_lane_sum [OF a len, of p] that f len by simp
  with r f show "\<exists>out. stable_softmax logits axis = Inr out \<and> dyn_shape out = dyn_shape logits \<and>
               dtype out = dtype logits \<and> length (elems out) = length (elems logits) \<and>
               (\<forall>p<length (elems out).
                  sum_list (lane_through (dyn_shape out) a (elems out) p) = 1)"
    by blast
qed

theorem stable_softmax_is_softmax_witness:
  "wf_tensor logits22 \<and>
   stable_softmax logits22 None = tf_softmax logits22 None \<and>
   stable_softmax logits22 None = stable_softmax logits22 (Some 1) \<and>
   resolve_axis (length (dyn_shape logits22)) (- 1) = Inr 1 \<and>
   (\<exists>out. stable_softmax logits22 None = Inr out \<and> dyn_shape out = [2, 2] \<and>
      length (elems out) = 4 \<and>
      sum_list (lane_through (dyn_shape out) 1 (elems out) 0) = 1 \<and>
      sum_list (lane_through (dyn_shape out) 1 (elems out) 3) = 1)"
proof -
  have wf: "wf_tensor logits22" by (simp add: wf_tensor_def logits22_def)
  have ra: "resolve_axis (length (dyn_shape logits22)) (case None of None \<Rightarrow> - 1 | Some n \<Rightarrow> n) = Inr 1"
    by (simp add: resolve_axis_def logits22_def)
  note t = stable_softmax_is_softmax [OF wf, of None]
  note t2 = t [THEN conjunct2]
  note t3 = t2 [THEN conjunct2]
  note t4 = t3 [THEN conjunct2, rule_format, OF ra]
  from t4 obtain out where out: "stable_softmax logits22 None = Inr out \<and>
      dyn_shape out = dyn_shape logits22 \<and> dtype out = dtype logits22 \<and>
      length (elems out) = length (elems logits22) \<and>
      (\<forall>p<length (elems out). sum_list (lane_through (dyn_shape out) 1 (elems out) p) = 1)" ..
  then have l: "length (elems out) = 4" by (simp add: logits22_def)
  note s = out [THEN conjunct2, THEN conjunct2, THEN conjunct2, THEN conjunct2, rule_format]
  have s0: "sum_list (lane_through (dyn_shape out) 1 (elems out) 0) = 1"
    using s [of 0] l by simp
  have s3: "sum_list (lane_through (dyn_shape out) 1 (elems out) 3) = 1"
    using s [of 3] l by simp
  have ex: "\<exists>out. stable_softmax logits22 None = Inr out \<and> dyn_shape out = [2, 2] \<and>
      length (elems out) = 4 \<and>
      sum_list (lane_through (dyn_shape out) 1 (elems out) 0) = 1 \<and>
      sum_list (lane_through (dyn_shape out) 1 (elems out) 3) = 1"
    using out l s0 s3 by (intro exI [of _ out]) (simp add: logits22_def)
  have e3: "stable_softmax logits22 None = stable_softmax logits22 (Some 1)"
    using t3 [THEN conjunct1] by (simp add: logits22_def)
  from wf t2 [THEN conjunct1] e3 ra ex show ?thesis by simp
qed

end
